theory Spec2Isabelle
  imports Complex_Main "HOL-Library.Word" "HOL-Library.AList" "HOL-Library.Sublist"
begin

text \<open>
  A shallow embedding of enhance-align-stable-ts: the segment validity filter
  (\<^verbatim>\<open>ValidSegmentsExtractor\<close>), the task-queue worker (\<^verbatim>\<open>rabbitmqWorker.ts\<close>) and the
  object store gateway (\<^verbatim>\<open>Storage\<close>), followed by the properties of them that the
  specification states, each proved, or refuted and proved in the form the code has.
\<close>

chapter \<open>The model\<close>

section \<open>JavaScript numbers\<close>

text \<open>
  A JavaScript \<^verbatim>\<open>number\<close> is an IEEE-754 binary64 value. Every finite binary64 value
  is a rational, so a number is modelled as \<open>Fin r\<close> for a rational \<open>r\<close>, or one of the
  three special values. The two zeros are identified: the code below only compares
  numbers (\<^verbatim>\<open>===\<close>, \<^verbatim>\<open>>\<close>), adds them, divides by a positive length and formats them
  with \<^verbatim>\<open>toFixed\<close>, and none of these results depends on the sign of a zero once it has
  been compared.
\<close>

datatype number = NaN | PosInf | NegInf | Fin rat

fun bit_length :: "nat \<Rightarrow> nat" where
  "bit_length n = (if n = 0 then 0 else Suc (bit_length (n div 2)))"

declare bit_length.simps [simp del]

text \<open>The exponent \<open>e\<close> with \<open>2 ^ e \<le> x < 2 ^ (e + 1)\<close>, for a positive rational \<open>x\<close>.\<close>

definition floor_log2 :: "rat \<Rightarrow> int" where
  "floor_log2 x =
     (if 1 \<le> x then int (bit_length (nat \<lfloor>x\<rfloor>)) - 1
      else - int (bit_length (nat (\<lceil>1 / x\<rceil> - 1))))"

definition round_half_even :: "rat \<Rightarrow> int" where
  "round_half_even y =
     (let f = \<lfloor>y\<rfloor>; d = y - of_int f
      in if d < 1 / 2 then f
         else if 1 / 2 < d then f + 1
         else if even f then f else f + 1)"

text \<open>
  Rounding of an exact result to binary64, round-to-nearest, ties-to-even: 53 significant
  bits, the least exponent \<open>-1022\<close> (below it the spacing stays \<open>2 ^ -1074\<close>, the
  subnormal range), overflow to an infinity from \<open>2 ^ 1024\<close> on.
\<close>

definition round_binary64 :: "rat \<Rightarrow> number" where
  "round_binary64 x =
     (if x = 0 then Fin 0
      else let a = \<bar>x\<bar>;
               e = max (floor_log2 a) (- 1022);
               q = 2 powi (e - 52);
               r = of_int (round_half_even (a / q)) * q
           in if 2 ^ 1024 \<le> r then (if 0 < x then PosInf else NegInf)
              else Fin (if 0 < x then r else - r))"

text \<open>\<^verbatim>\<open>a + b\<close> on numbers.\<close>

fun js_add :: "number \<Rightarrow> number \<Rightarrow> number" where
  "js_add NaN _ = NaN"
| "js_add _ NaN = NaN"
| "js_add PosInf NegInf = NaN"
| "js_add NegInf PosInf = NaN"
| "js_add PosInf _ = PosInf"
| "js_add _ PosInf = PosInf"
| "js_add NegInf _ = NegInf"
| "js_add _ NegInf = NegInf"
| "js_add (Fin a) (Fin b) = round_binary64 (a + b)"

text \<open>
  \<^verbatim>\<open>a / n\<close> where \<open>n\<close> is the length of a non-empty array (a positive integer below
  \<open>2 ^ 32\<close>, exactly representable). The code never divides by a zero length; the model
  gives \<open>NaN\<close> there.
\<close>

fun js_div_length :: "number \<Rightarrow> nat \<Rightarrow> number" where
  "js_div_length NaN n = NaN"
| "js_div_length PosInf n = (if n = 0 then NaN else PosInf)"
| "js_div_length NegInf n = (if n = 0 then NaN else NegInf)"
| "js_div_length (Fin a) n = (if n = 0 then NaN else round_binary64 (a / of_nat n))"

text \<open>
  \<^verbatim>\<open>+x.toFixed(3)\<close>: \<^verbatim>\<open>toFixed\<close> takes the integer \<open>n\<close> for which \<open>n / 1000 - \<bar>x\<bar>\<close> is
  closest to zero (the larger \<open>n\<close> of two) and prints the sign and the digits of \<open>n / 1000\<close>;
  from \<open>10 ^ 21\<close> on it prints the number itself. The unary plus reads the string back as
  the nearest binary64 value.
\<close>

fun toFixed3 :: "number \<Rightarrow> number" where
  "toFixed3 NaN = NaN"
| "toFixed3 PosInf = PosInf"
| "toFixed3 NegInf = NegInf"
| "toFixed3 (Fin x) =
     (if 10 ^ 21 \<le> \<bar>x\<bar> then Fin x
      else let n = \<lfloor>\<bar>x\<bar> * 1000 + 1 / 2\<rfloor>
           in round_binary64 ((if x < 0 then - 1 else 1) * of_int n / 1000))"

text \<open>\<^verbatim>\<open>a === b\<close> and \<^verbatim>\<open>a > b\<close> on numbers: every comparison with \<open>NaN\<close> is false.\<close>

fun js_strict_eq :: "number \<Rightarrow> number \<Rightarrow> bool" where
  "js_strict_eq (Fin a) (Fin b) = (a = b)"
| "js_strict_eq PosInf PosInf = True"
| "js_strict_eq NegInf NegInf = True"
| "js_strict_eq _ _ = False"

fun js_gt :: "number \<Rightarrow> number \<Rightarrow> bool" where
  "js_gt NaN _ = False"
| "js_gt _ NaN = False"
| "js_gt (Fin a) (Fin b) = (b < a)"
| "js_gt PosInf b = (b \<noteq> PosInf)"
| "js_gt NegInf _ = False"
| "js_gt (Fin a) PosInf = False"
| "js_gt (Fin a) NegInf = True"

text \<open>A decimal literal of the source text denotes the nearest binary64 value.\<close>

definition literal :: "rat \<Rightarrow> number" where
  "literal r = round_binary64 r"

section \<open>JavaScript strings\<close>

text \<open>
  A string is a sequence of UTF-16 code units, and \<^verbatim>\<open>length\<close> counts code units.
  \<^verbatim>\<open>trim\<close> removes white space and line terminators from both ends.
\<close>

type_synonym utf16 = "16 word list"

definition is_white_space :: "16 word \<Rightarrow> bool" where
  "is_white_space c =
     (c \<in> set [0x0009, 0x000A, 0x000B, 0x000C, 0x000D, 0x0020, 0x00A0, 0x1680,
               0x2028, 0x2029, 0x202F, 0x205F, 0x3000, 0xFEFF]
      \<or> (0x2000 \<le> c \<and> c \<le> 0x200A))"

definition trim :: "utf16 \<Rightarrow> utf16" where
  "trim s = rev (dropWhile is_white_space (rev (dropWhile is_white_space s)))"

section \<open>The segment validity filter (validSegmentsExtractor.ts)\<close>

text \<open>
  \<^verbatim>\<open>TextSegment\<close> is imported from \<^verbatim>\<open>./segment\<close>; its fields here are the ones the
  extractor reads. \<^verbatim>\<open>words\<close> may be absent, which the extractor
  tests with \<^verbatim>\<open>!segment.words\<close>.
\<close>

record WordInfo =
  probability :: number

record TextSegment =
  startTime :: number
  endTime :: number
  rawText :: utf16
  words :: "WordInfo list option"

record ValidSegmentsExtractor =
  probabilityThreshold :: number
  enableDebugLogging :: bool

text \<open>
  The console is the only state the extractor touches. A line is kept as the data that is
  interpolated into it rather than as formatted text.
\<close>

datatype validation_status =
    Rejected_Termination_segment
  | Rejected_No_words_in_segment
  | Accepted_Special_case
  | Accepted_Probability_within_threshold
  | Rejected_Probability_too_low number number

datatype console_line =
    Validation_Status validation_status utf16
  | Segment_Validation number utf16

type_synonym console = "console_line list"

definition calculateAverageProbability :: "'a WordInfo_scheme list \<Rightarrow> number" where
  "calculateAverageProbability ws =
     (if length ws = 0 then Fin 0
      else let totalProbability = foldl (\<lambda>sum word. js_add sum (probability word)) (Fin 0) ws
           in toFixed3 (js_div_length totalProbability (length ws)))"

definition isEndSegment :: "TextSegment \<Rightarrow> bool" where
  "isEndSegment segment = js_strict_eq (endTime segment) (startTime segment)"

definition logValidationDetails ::
  "ValidSegmentsExtractor \<Rightarrow> TextSegment \<Rightarrow> number \<Rightarrow> console \<Rightarrow> console" where
  "logValidationDetails this segment avgProbability con =
     (if enableDebugLogging this
      then con @ [Segment_Validation avgProbability (trim (rawText segment))]
      else con)"

definition logValidation ::
  "ValidSegmentsExtractor \<Rightarrow> TextSegment \<Rightarrow> validation_status \<Rightarrow> console \<Rightarrow> console" where
  "logValidation this segment status con =
     (if enableDebugLogging this
      then con @ [Validation_Status status (trim (rawText segment))]
      else con)"

definition isSegmentValid ::
  "ValidSegmentsExtractor \<Rightarrow> TextSegment \<Rightarrow> console \<Rightarrow> bool \<times> console" where
  "isSegmentValid this segment con =
     (if isEndSegment segment
      then (False, logValidation this segment Rejected_Termination_segment con)
      else case words segment of
        None \<Rightarrow> (False, logValidation this segment Rejected_No_words_in_segment con)
      | Some ws \<Rightarrow>
          if length ws = 0
          then (False, logValidation this segment Rejected_No_words_in_segment con)
          else
            let avgProbability = calculateAverageProbability ws;
                textLength = length (trim (rawText segment));
                con1 = logValidationDetails this segment avgProbability con
            in if textLength \<le> 2 \<and> js_strict_eq avgProbability (Fin 0)
               then (True, logValidation this segment Accepted_Special_case con1)
               else
                 let isValid = js_gt avgProbability (probabilityThreshold this)
                 in (isValid,
                     logValidation this segment
                       (if isValid then Accepted_Probability_within_threshold
                        else Rejected_Probability_too_low avgProbability
                               (probabilityThreshold this))
                       con1))"

text \<open>
  The \<^verbatim>\<open>for ... of\<close> loop of \<^verbatim>\<open>extractValidSegments\<close>: \<open>validSegments\<close> is the array built
  so far, \<^verbatim>\<open>break\<close> returns it.
\<close>

fun extract_loop ::
  "ValidSegmentsExtractor \<Rightarrow> TextSegment list \<Rightarrow> TextSegment list \<Rightarrow> console
     \<Rightarrow> TextSegment list \<times> console" where
  "extract_loop this [] validSegments con = (validSegments, con)"
| "extract_loop this (segment # rest) validSegments con =
     (case isSegmentValid this segment con of
        (False, con') \<Rightarrow> (validSegments, con')
      | (True, con') \<Rightarrow> extract_loop this rest (validSegments @ [segment]) con')"

definition extractValidSegments ::
  "ValidSegmentsExtractor \<Rightarrow> TextSegment list \<Rightarrow> console \<Rightarrow> TextSegment list \<times> console" where
  "extractValidSegments this segments con = extract_loop this segments [] con"

text \<open>The verdict on a segment, on an empty console.\<close>

definition judged_valid :: "ValidSegmentsExtractor \<Rightarrow> TextSegment \<Rightarrow> bool" where
  "judged_valid this segment = fst (isSegmentValid this segment [])"

section \<open>JavaScript values, errors and the outside world\<close>

text \<open>
  A message payload is whatever \<^verbatim>\<open>JSON.parse\<close> returned, so request data is a JavaScript
  value and not yet a \<^verbatim>\<open>RequestData\<close>. An object is the list of its own properties in
  insertion order, read with \<open>map_of\<close>. Names and keys are compared only, so they are
  plain strings here.
\<close>

datatype jsval =
    Undefined
  | Null
  | JBool bool
  | JNum number
  | JStr string
  | JArr "jsval list"
  | JObj "(string \<times> jsval) list"

datatype js_error = TypeError | SyntaxError | Error_with_code string

text \<open>\<^verbatim>\<open>!v\<close> is \<open>\<not> truthy v\<close>.\<close>

fun truthy :: "jsval \<Rightarrow> bool" where
  "truthy Undefined = False"
| "truthy Null = False"
| "truthy (JBool b) = b"
| "truthy (JNum NaN) = False"
| "truthy (JNum (Fin r)) = (r \<noteq> 0)"
| "truthy (JNum _) = True"
| "truthy (JStr s) = (s \<noteq> [])"
| "truthy (JArr _) = True"
| "truthy (JObj _) = True"

text \<open>
  \<^verbatim>\<open>v.k\<close> for the two names the worker reads, \<^verbatim>\<open>correlationId\<close> and \<^verbatim>\<open>fileClaimCheck\<close>:
  booleans, numbers, strings and arrays have no such property, and reading a property of
  \<^verbatim>\<open>undefined\<close> or \<^verbatim>\<open>null\<close> throws a \<^verbatim>\<open>TypeError\<close>.
\<close>

fun property_of :: "jsval \<Rightarrow> string \<Rightarrow> jsval" where
  "property_of (JObj kvs) k = (case map_of kvs k of None \<Rightarrow> Undefined | Some v \<Rightarrow> v)"
| "property_of _ k = Undefined"

definition get_prop :: "jsval \<Rightarrow> string \<Rightarrow> js_error + jsval" where
  "get_prop v k = (if v = Undefined \<or> v = Null then Inl TypeError else Inr (property_of v k))"

text \<open>
  The properties an object spread \<^verbatim>\<open>{...v}\<close> copies from an object. The worker spreads its
  request only after it has read a string \<^verbatim>\<open>fileClaimCheck\<close> from it, so the value spread
  is an object.
\<close>

fun own_properties :: "jsval \<Rightarrow> (string \<times> jsval) list" where
  "own_properties (JObj kvs) = kvs"
| "own_properties _ = []"

text \<open>
  What the program does to the outside world is recorded as a trace of events: console
  lines (the message shortened to its fixed text, with the interpolated values) and the
  calls that leave the process.
\<close>

datatype event =
    Console_log string "jsval list"
  | Console_warn string
  | Console_error string js_error
  | Call_fGetObject string string string
  | Call_setTimeout nat
  | Call_sendMessageToQueue string jsval
  | Call_readFile string
  | Call_ack

text \<open>
  The modules imported from outside these files (the object-store client, the Kafka
  helper, the configuration), Node's \<^verbatim>\<open>os\<close>, \<^verbatim>\<open>path\<close> and \<^verbatim>\<open>fs\<close>, the clock and
  \<^verbatim>\<open>JSON.parse\<close> are parameters of the model. \<open>'w\<close> is the state of the outside world;
  a call that can throw returns \<open>Inl\<close> of what it throws.
\<close>

record 'w externals =
  tmpdir :: string
  path_join :: "string \<Rightarrow> string \<Rightarrow> string"
  fGetObject :: "string \<Rightarrow> string \<Rightarrow> string \<Rightarrow> 'w \<Rightarrow> (js_error + unit) \<times> 'w"
  statSync_size :: "string \<Rightarrow> 'w \<Rightarrow> js_error + nat"
  toISOString_now :: "'w \<Rightarrow> string"
  sendMessageToQueue :: "string \<Rightarrow> jsval \<Rightarrow> 'w \<Rightarrow> (js_error + unit) \<times> 'w"
  bucketName :: string
  responseTopic :: string
  readFile :: "string \<Rightarrow> 'w \<Rightarrow> (js_error + string) \<times> 'w"
  JSON_parse :: "string \<Rightarrow> js_error + jsval"

type_synonym 'w state = "'w \<times> event list"

section \<open>The object store gateway (utils/storage.ts)\<close>

text \<open>
  \<^verbatim>\<open>Storage.downloadFile\<close>: one call of the client's \<^verbatim>\<open>fGetObject\<close>; an error is logged
  and thrown again as it is.
\<close>

definition downloadFile ::
  "'w externals \<Rightarrow> string \<Rightarrow> string \<Rightarrow> 'w state \<Rightarrow> (js_error + unit) \<times> 'w state" where
  "downloadFile X fileName downloadPath st =
     (case st of (w, tr) \<Rightarrow>
        let tr1 = tr @ [Call_fGetObject (bucketName X) fileName downloadPath]
        in case fGetObject X (bucketName X) fileName downloadPath w of
             (Inr u, w') \<Rightarrow>
               (Inr (), (w', tr1 @ [Console_log ''File downloaded'' [JStr fileName, JStr downloadPath]]))
           | (Inl error, w') \<Rightarrow>
               (Inl error, (w', tr1 @ [Console_error ''Error downloading file'' error])))"

section \<open>The task-queue worker (rabbitmqWorker.ts)\<close>

definition validateMessage :: "jsval \<Rightarrow> event list \<Rightarrow> bool \<times> event list" where
  "validateMessage requestData tr =
     (if \<not> truthy requestData then (False, tr)
      else if \<not> truthy (property_of requestData ''correlationId'')
      then (False, tr @ [Console_warn ''Message missing correlationId, ignoring.''])
      else (True, tr))"

text \<open>The body of the \<^verbatim>\<open>try\<close> block of \<^verbatim>\<open>processAndRespondToKafka\<close>.\<close>

definition process_try_block ::
  "'w externals \<Rightarrow> jsval \<Rightarrow> string \<Rightarrow> string \<Rightarrow> 'w state \<Rightarrow> (js_error + unit) \<times> 'w state" where
  "process_try_block X requestData fileClaimCheck tempFilePath st =
     (case st of (w, tr) \<Rightarrow>
        let tr1 = tr @ [Console_log ''Downloading file'' [JStr fileClaimCheck, JStr tempFilePath]]
        in case downloadFile X fileClaimCheck tempFilePath (w, tr1) of
             (Inl error, st2) \<Rightarrow> (Inl error, st2)
           | (Inr u, (w2, tr2)) \<Rightarrow>
               let tr3 = tr2 @ [Console_log ''File downloaded successfully.'' []]
               in case statSync_size X tempFilePath w2 of
                    Inl error \<Rightarrow> (Inl error, (w2, tr3))
                  | Inr fileSize \<Rightarrow>
                      let tr4 = tr3 @ [Console_log ''File Details''
                                         [JStr fileClaimCheck, JNum (Fin (of_nat fileSize)), JStr tempFilePath],
                                       Call_setTimeout 1000];
                          responseData =
                            JObj (AList.update ''timestamp'' (JStr (toISOString_now X w2))
                                   (AList.update ''status'' (JStr ''Processed'')
                                     (own_properties requestData)));
                          tr5 = tr4 @ [Call_sendMessageToQueue (responseTopic X) responseData]
                      in case sendMessageToQueue X (responseTopic X) responseData w2 of
                           (Inl error, w3) \<Rightarrow> (Inl error, (w3, tr5))
                         | (Inr u, w3) \<Rightarrow>
                             (Inr (),
                              (w3, tr5 @ [Console_log ''Sent response to Kafka with correlationId''
                                            [property_of responseData ''correlationId'']])))"

text \<open>
  \<^verbatim>\<open>processAndRespondToKafka\<close>. The two lines before the \<^verbatim>\<open>try\<close> are not guarded:
  \<^verbatim>\<open>path.join\<close> throws a \<^verbatim>\<open>TypeError\<close> when an argument is not a string, and the
  returned promise is then rejected. Inside the \<^verbatim>\<open>try\<close> every error is caught and logged.
\<close>

definition processAndRespondToKafka ::
  "'w externals \<Rightarrow> jsval \<Rightarrow> 'w state \<Rightarrow> (js_error + unit) \<times> 'w state" where
  "processAndRespondToKafka X requestData st =
     (case st of (w, tr) \<Rightarrow>
        case get_prop requestData ''correlationId'' of
          Inl error \<Rightarrow> (Inl error, (w, tr))
        | Inr correlationId \<Rightarrow>
            let tr1 = tr @ [Console_log ''Processing request with correlationId'' [correlationId]];
                tempDir = tmpdir X
            in case property_of requestData ''fileClaimCheck'' of
                 JStr fileClaimCheck \<Rightarrow>
                   let tempFilePath = path_join X tempDir fileClaimCheck
                   in (case process_try_block X requestData fileClaimCheck tempFilePath (w, tr1) of
                         (Inl error, (w', tr')) \<Rightarrow>
                           (Inr (), (w', tr' @ [Console_error ''Error processing file'' error]))
                       | (Inr u, st') \<Rightarrow> (Inr (), st'))
               | _ \<Rightarrow> (Inl TypeError, (w, tr1)))"

text \<open>
  Modelled from the spec: \<^verbatim>\<open>rabbitMqMessageHandler\<close> (module \<^verbatim>\<open>amqp/amqpConsumer\<close>, which
  the worker imports; its code is not among the files modelled above). The spec, 4.3: the message is
  validated, and rejected (acknowledge-and-drop, log, no response emitted) if
  \<^verbatim>\<open>correlationId\<close> is missing or the payload fails to parse; otherwise it is processed,
  and acknowledged only after the response has been published. A payload that fails to
  parse is taken as \<^verbatim>\<open>null\<close>, which is what \<^verbatim>\<open>validateMessage\<close> accepts as its
  argument.
\<close>

definition rabbitMqMessageHandler ::
  "'w externals \<Rightarrow> (jsval \<Rightarrow> event list \<Rightarrow> bool \<times> event list)
     \<Rightarrow> (jsval \<Rightarrow> 'w state \<Rightarrow> (js_error + unit) \<times> 'w state)
     \<Rightarrow> string \<Rightarrow> 'w state \<Rightarrow> 'w state" where
  "rabbitMqMessageHandler X validate process content st =
     (case st of (w, tr) \<Rightarrow>
        let requestData = (case JSON_parse X content of Inl error \<Rightarrow> Null | Inr v \<Rightarrow> v)
        in case validate requestData tr of
             (False, tr1) \<Rightarrow> (w, tr1 @ [Console_warn ''Invalid message dropped'', Call_ack])
           | (True, tr1) \<Rightarrow>
               (case process requestData (w, tr1) of
                  (Inr u, (w', tr2)) \<Rightarrow> (w', tr2 @ [Call_ack])
                | (Inl error, st') \<Rightarrow> st'))"

text \<open>The events that fetch a blob or publish a message.\<close>

fun is_download_or_send :: "event \<Rightarrow> bool" where
  "is_download_or_send (Call_fGetObject b n p) = True"
| "is_download_or_send (Call_sendMessageToQueue t m) = True"
| "is_download_or_send _ = False"

fun is_send :: "event \<Rightarrow> bool" where
  "is_send (Call_sendMessageToQueue t m) = True"
| "is_send _ = False"

fun is_download :: "event \<Rightarrow> bool" where
  "is_download (Call_fGetObject b n p) = True"
| "is_download _ = False"

section \<open>Loading segments from a file (validSegmentsExtractor.ts)\<close>

text \<open>
  \<^verbatim>\<open>loadSegmentsFromFile\<close>: the whole body is inside \<^verbatim>\<open>try\<close>; the parsed value is
  returned as it is (the cast to \<^verbatim>\<open>TextSegment[]\<close> checks nothing).
\<close>

definition loadSegmentsFromFile ::
  "ValidSegmentsExtractor \<Rightarrow> 'w externals \<Rightarrow> string \<Rightarrow> 'w state
     \<Rightarrow> (js_error + jsval) \<times> 'w state" where
  "loadSegmentsFromFile this X filePath st =
     (case st of (w, tr) \<Rightarrow>
        let tr1 = tr @ [Call_readFile filePath]
        in case readFile X filePath w of
             (Inl error, w') \<Rightarrow>
               (Inr (JArr []),
                (w', tr1 @ [Console_error ''Error loading segments from file'' error]))
           | (Inr fileContent, w') \<Rightarrow>
               (case JSON_parse X fileContent of
                  Inl error \<Rightarrow>
                    (Inr (JArr []),
                     (w', tr1 @ [Console_error ''Error loading segments from file'' error]))
                | Inr v \<Rightarrow> (Inr v, (w', tr1))))"

section \<open>The object store, from the spec\<close>

text \<open>
  Modelled from the spec: the client's \<^verbatim>\<open>fGetObject\<close> (module \<^verbatim>\<open>minio/minioClient\<close> and
  the client library behind it; their code is not among the files modelled above). The
  spec, 4.1:
  download fails with \<^verbatim>\<open>NotFound\<close> if the named blob does not exist, and with
  \<^verbatim>\<open>TransferError\<close> on any I/O fault during transfer; it must not leave a
  partially-written file at the local path: it writes to a temporary path and atomically
  renames on success, or deletes partial output on failure. \<open>fault = Some k\<close> is an I/O
  fault after \<open>k\<close> bytes of the transfer.
\<close>

record store =
  blobs :: "string \<times> string \<rightharpoonup> 8 word list"
  files :: "string \<rightharpoonup> 8 word list"

definition temporary_path :: "string \<Rightarrow> string" where
  "temporary_path localPath = localPath @ ''.part''"

definition spec_fGetObject ::
  "nat option \<Rightarrow> string \<Rightarrow> string \<Rightarrow> string \<Rightarrow> store \<Rightarrow> (js_error + unit) \<times> store" where
  "spec_fGetObject fault bucket name localPath s =
     (case blobs s (bucket, name) of
        None \<Rightarrow> (Inl (Error_with_code ''NotFound''), s)
      | Some content \<Rightarrow>
          (case fault of
             Some k \<Rightarrow>
               (Inl (Error_with_code ''TransferError''),
                s\<lparr>files := ((files s)(temporary_path localPath \<mapsto> take k content))
                               (temporary_path localPath := None)\<rparr>)
           | None \<Rightarrow>
               (Inr (),
                s\<lparr>files := ((files s)(temporary_path localPath := None))
                               (localPath \<mapsto> content)\<rparr>)))"

section \<open>The average as the spec words it\<close>

text \<open>
  Following the spec's words (4.2, step 3): the mean of the probabilities, rounded to 3
  decimal places (to the nearest, a tie upwards), as the number a decimal literal with
  those digits denotes. The mean is the exact one.
\<close>

definition spec_avgProbability :: "rat list \<Rightarrow> number" where
  "spec_avgProbability ps =
     literal (of_int \<lfloor>sum_list ps / of_nat (length ps) * 1000 + 1 / 2\<rfloor> / 1000)"

section \<open>Example data\<close>

text \<open>
  The segment of the spec's end-to-end scenario (start 0, end 1, text \<^verbatim>\<open>hi\<close>, one word of
  probability 0.9), an end marker, and a short segment of probability 0.
\<close>

definition segment_hi :: TextSegment where
  "segment_hi =
     \<lparr>startTime = Fin 0, endTime = Fin 1, rawText = [0x68, 0x69],
      words = Some [\<lparr>probability = literal (9 / 10)\<rparr>]\<rparr>"

definition segment_end :: TextSegment where
  "segment_end =
     \<lparr>startTime = Fin 1, endTime = Fin 1, rawText = [0x68, 0x69],
      words = Some [\<lparr>probability = literal (9 / 10)\<rparr>]\<rparr>"

definition segment_zero :: TextSegment where
  "segment_zero =
     \<lparr>startTime = Fin 0, endTime = Fin 1, rawText = [0x68, 0x69],
      words = Some [\<lparr>probability = Fin 0\<rparr>]\<rparr>"

definition extractor_half :: "bool \<Rightarrow> ValidSegmentsExtractor" where
  "extractor_half debug = \<lparr>probabilityThreshold = literal (1 / 2), enableDebugLogging = debug\<rparr>"

definition extractor_zero :: ValidSegmentsExtractor where
  "extractor_zero = \<lparr>probabilityThreshold = Fin 0, enableDebugLogging = False\<rparr>"

text \<open>
  An outside world in which every call succeeds, and two job messages: one with the field
  names of \<^verbatim>\<open>RequestData\<close>, one with the field names of the spec's inbound message.
\<close>

definition externals_ok :: "unit externals" where
  "externals_ok =
     \<lparr>tmpdir = ''/tmp'',
      path_join = (\<lambda>a b. a @ ''/'' @ b),
      fGetObject = (\<lambda>bucket name path w. (Inr (), w)),
      statSync_size = (\<lambda>path w. Inr 4),
      toISOString_now = (\<lambda>w. ''2025-01-01T00:00:00.000Z''),
      sendMessageToQueue = (\<lambda>topic message w. (Inr (), w)),
      bucketName = ''audio'',
      responseTopic = ''response'',
      readFile = (\<lambda>path w. (Inl (Error_with_code ''ENOENT''), w)),
      JSON_parse = (\<lambda>text. Inl SyntaxError)\<rparr>"

definition request_fileClaimCheck :: jsval where
  "request_fileClaimCheck =
     JObj [(''correlationId'', JStr ''c1''), (''referenceTexts'', JArr [JStr ''a'']),
           (''fileClaimCheck'', JStr ''f1.wav'')]"

definition request_claimCheck :: jsval where
  "request_claimCheck =
     JObj [(''correlationId'', JStr ''c1''), (''referenceTexts'', JArr [JStr ''a'']),
           (''claimCheck'', JStr ''f1.wav'')]"

text \<open>An outside world whose object-store client is the one of the spec.\<close>

definition externals_store :: "nat option \<Rightarrow> store externals" where
  "externals_store fault =
     \<lparr>tmpdir = ''/tmp'',
      path_join = (\<lambda>a b. a @ ''/'' @ b),
      fGetObject = spec_fGetObject fault,
      statSync_size =
        (\<lambda>path s. case files s path of None \<Rightarrow> Inl (Error_with_code ''ENOENT'')
                                       | Some content \<Rightarrow> Inr (length content)),
      toISOString_now = (\<lambda>s. ''2025-01-01T00:00:00.000Z''),
      sendMessageToQueue = (\<lambda>topic message s. (Inr (), s)),
      bucketName = ''audio'',
      responseTopic = ''response'',
      readFile = (\<lambda>path s. (Inl (Error_with_code ''ENOENT''), s)),
      JSON_parse = (\<lambda>text. Inl SyntaxError)\<rparr>"

definition store_f1 :: store where
  "store_f1 = \<lparr>blobs = [(''audio'', ''f1.wav'') \<mapsto> [1, 2, 3, 4]], files = Map.empty\<rparr>"

chapter \<open>Properties\<close>

section \<open>Binary64 rounding\<close>

lemma bit_length_bounds:
  "0 < n \<Longrightarrow> 2 ^ (bit_length n - 1) \<le> n \<and> n < 2 ^ bit_length n"
proof (induction n rule: bit_length.induct)
  case (1 n)
  show ?case
  proof (cases "n div 2 = 0")
    case True
    with "1.prems" have "n = 1" by (simp add: div_eq_0_iff)
    then show ?thesis by (simp add: bit_length.simps)
  next
    case False
    with "1.prems" "1.IH"
    have ih: "2 ^ (bit_length (n div 2) - 1) \<le> n div 2" "n div 2 < 2 ^ bit_length (n div 2)"
      by simp_all
    have pos: "0 < bit_length (n div 2)" using False by (simp add: bit_length.simps)
    have bl: "bit_length n = Suc (bit_length (n div 2))"
      using "1.prems" by (subst bit_length.simps) simp
    have "2 * 2 ^ (bit_length (n div 2) - 1) \<le> n" using ih(1) by linarith
    moreover have "2 * 2 ^ (bit_length (n div 2) - 1) = (2::nat) ^ bit_length (n div 2)"
      using pos by (cases "bit_length (n div 2)") simp_all
    moreover have "n < 2 * 2 ^ bit_length (n div 2)" using ih(2) by linarith
    ultimately show ?thesis by (simp add: bl)
  qed
qed

text \<open>\<open>floor_log2\<close> computes the binary exponent, and the exponent is unique.\<close>

lemma floor_log2_bounds:
  assumes "0 < x"
  shows "2 powi (floor_log2 x) \<le> x \<and> x < 2 powi (floor_log2 x + 1)"
proof (cases "1 \<le> x")
  case True
  define n where "n = nat \<lfloor>x\<rfloor>"
  have n: "0 < n" "of_nat n \<le> x" "x < of_nat n + 1"
    using True floor_correct [of x] by (simp_all add: n_def le_floor_iff)
  from bit_length_bounds [OF n(1)]
  have b: "2 ^ (bit_length n - 1) \<le> n" "n < 2 ^ bit_length n" by simp_all
  have pos: "0 < bit_length n" using n(1) by (simp add: bit_length.simps)
  have e: "floor_log2 x = int (bit_length n - 1)"
    using True pos by (simp add: floor_log2_def n_def)
  have "(2::rat) ^ (bit_length n - 1) \<le> of_nat n"
    using b(1) by (metis of_nat_le_iff of_nat_numeral of_nat_power)
  from order_trans [OF this n(2)] have lo: "2 powi (floor_log2 x) \<le> x" by (simp add: e)
  have "n + 1 \<le> 2 ^ bit_length n" using b(2) by simp
  then have "(of_nat (n + 1) :: rat) \<le> of_nat (2 ^ bit_length n)" by (simp only: of_nat_le_iff)
  then have "x < 2 ^ bit_length n" using n(3) by simp
  moreover have "floor_log2 x + 1 = int (bit_length n)" using e pos by simp
  ultimately have "x < 2 powi (floor_log2 x + 1)" by simp
  with lo show ?thesis by simp
next
  case False
  define y where "y = 1 / x"
  define k where "k = nat (\<lceil>y\<rceil> - 1)"
  have y1: "1 < y" using False assms by (simp add: y_def)
  then have c2: "2 \<le> \<lceil>y\<rceil>" by (simp add: le_ceiling_iff)
  have k: "0 < k" "of_nat k < y" "y \<le> of_nat k + 1"
    using c2 ceiling_correct [of y] by (simp_all add: k_def of_nat_nat)
  from bit_length_bounds [OF k(1)]
  have b: "2 ^ (bit_length k - 1) \<le> k" "k < 2 ^ bit_length k" by simp_all
  have pos: "0 < bit_length k" using k(1) by (simp add: bit_length.simps)
  have e: "floor_log2 x = - int (bit_length k)"
    using False by (simp add: floor_log2_def k_def y_def)
  have "k + 1 \<le> 2 ^ bit_length k" using b(2) by simp
  then have "(of_nat (k + 1) :: rat) \<le> of_nat (2 ^ bit_length k)" by (simp only: of_nat_le_iff)
  then have yhi: "y \<le> 2 ^ bit_length k" using k(3) by simp
  have "(2::rat) ^ (bit_length k - 1) \<le> of_nat k"
    using b(1) by (metis of_nat_le_iff of_nat_numeral of_nat_power)
  from order_le_less_trans [OF this k(2)] have ylo: "2 ^ (bit_length k - 1) < y" .
  have xy: "x = 1 / y" using assms by (simp add: y_def)
  have ypos: "0 < y" using y1 by simp
  have p1: "2 powi (floor_log2 x) = 1 / (2::rat) ^ bit_length k"
    by (simp add: e power_int_minus divide_inverse)
  have "1 / (2::rat) ^ bit_length k \<le> 1 / y"
    using yhi ypos by (intro divide_left_mono) simp_all
  then have "1 / (2::rat) ^ bit_length k \<le> x" by (simp only: xy)
  then have lo: "2 powi (floor_log2 x) \<le> x" by (simp only: p1)
  have "floor_log2 x + 1 = - int (bit_length k - 1)" using e pos by simp
  then have p2: "2 powi (floor_log2 x + 1) = 1 / (2::rat) ^ (bit_length k - 1)"
    by (simp add: power_int_minus divide_inverse)
  have "1 / y < 1 / (2::rat) ^ (bit_length k - 1)"
    using ylo ypos by (intro divide_strict_left_mono) simp_all
  then have "x < 1 / (2::rat) ^ (bit_length k - 1)" by (simp only: xy)
  then have hi: "x < 2 powi (floor_log2 x + 1)" by (simp only: p2)
  from lo hi show ?thesis by simp
qed

lemma floor_log2_eq:
  assumes "2 powi e \<le> x" and "x < 2 powi (e + 1)"
  shows "floor_log2 x = e"
proof -
  have "0 < (2::rat) powi e" by simp
  with assms(1) have pos: "0 < x" by linarith
  from floor_log2_bounds [OF pos]
  have b: "2 powi (floor_log2 x) \<le> x" "x < 2 powi (floor_log2 x + 1)" by simp_all
  have "\<not> floor_log2 x < e"
  proof
    assume "floor_log2 x < e"
    then have "2 powi (floor_log2 x + 1) \<le> (2::rat) powi e"
      by (intro power_int_increasing) simp_all
    with b(2) assms(1) show False by simp
  qed
  moreover have "\<not> e < floor_log2 x"
  proof
    assume "e < floor_log2 x"
    then have "2 powi (e + 1) \<le> (2::rat) powi (floor_log2 x)"
      by (intro power_int_increasing) simp_all
    with b(1) assms(2) show False by simp
  qed
  ultimately show ?thesis by simp
qed

lemma round_half_even_eq:
  assumes "of_int m - 1 / 2 < y" and "y < of_int m + 1 / 2"
  shows "round_half_even y = m"
proof (cases "y < of_int m")
  case True
  have "of_int (m - 1) \<le> y" "y < of_int (m - 1) + 1" using assms(1) True by simp_all
  then have f: "\<lfloor>y\<rfloor> = m - 1" by (rule floor_unique)
  show ?thesis using assms(1) by (simp add: round_half_even_def Let_def f)
next
  case False
  have "of_int m \<le> y" "y < of_int m + 1" using assms(2) False by simp_all
  then have f: "\<lfloor>y\<rfloor> = m" by (rule floor_unique)
  show ?thesis using assms(2) by (simp add: round_half_even_def Let_def f)
qed

lemma round_half_even_tie:
  assumes "y = of_int m + 1 / 2"
  shows "round_half_even y = (if even m then m else m + 1)"
proof -
  have "of_int m \<le> y" "y < of_int m + 1" using assms by simp_all
  then have f: "\<lfloor>y\<rfloor> = m" by (rule floor_unique)
  have d: "y - of_int \<lfloor>y\<rfloor> = 1 / 2" using assms f by simp
  show ?thesis by (simp only: round_half_even_def Let_def d) (simp add: f)
qed

lemma round_binary64_pos:
  assumes "2 powi e \<le> x" and "x < 2 powi (e + 1)" and "- 1022 \<le> e"
    and "round_half_even (x / 2 powi (e - 52)) = m"
    and "of_int m * 2 powi (e - 52) < (2::rat) ^ 1024"
  shows "round_binary64 x = Fin (of_int m * 2 powi (e - 52))"
proof -
  have "0 < (2::rat) powi e" by simp
  with assms(1) have pos: "0 < x" by linarith
  have e: "floor_log2 x = e" using assms(1,2) by (rule floor_log2_eq)
  have mx: "max e (- 1022) = e" using assms(3) by simp
  have ab: "\<bar>x\<bar> = x" using pos by simp
  have nz: "x \<noteq> 0" using pos by simp
  have no: "\<not> (2::rat) ^ 1024 \<le> of_int m * 2 powi (e - 52)" using assms(5) by simp
  show ?thesis
    unfolding round_binary64_def Let_def ab e mx assms(4)
    using nz no pos by (simp only: if_False if_True)
qed

lemma round_binary64_nearest:
  assumes "2 powi e \<le> x" and "x < 2 powi (e + 1)" and "- 1022 \<le> e"
    and "of_int m - 1 / 2 < x / 2 powi (e - 52)" and "x / 2 powi (e - 52) < of_int m + 1 / 2"
    and "of_int m * 2 powi (e - 52) < (2::rat) ^ 1024"
    and "r = of_int m * 2 powi (e - 52)"
  shows "round_binary64 x = Fin r"
  using round_binary64_pos [OF assms(1,2,3) round_half_even_eq [OF assms(4,5)] assms(6)] assms(7)
  by simp

lemma round_binary64_tie:
  assumes "2 powi e \<le> x" and "x < 2 powi (e + 1)" and "- 1022 \<le> e"
    and "x / 2 powi (e - 52) = of_int m + 1 / 2"
    and "of_int (if even m then m else m + 1) * 2 powi (e - 52) < (2::rat) ^ 1024"
    and "r = of_int (if even m then m else m + 1) * 2 powi (e - 52)"
  shows "round_binary64 x = Fin r"
  using round_binary64_pos [OF assms(1,2,3) round_half_even_tie [OF assms(4)] assms(5)] assms(6)
  by simp

lemma toFixed3_nearest:
  assumes "\<bar>x\<bar> < 10 ^ 21"
    and "of_int n \<le> \<bar>x\<bar> * 1000 + 1 / 2" and "\<bar>x\<bar> * 1000 + 1 / 2 < of_int n + 1"
  shows "toFixed3 (Fin x) = round_binary64 ((if x < 0 then - 1 else 1) * of_int n / 1000)"
proof -
  have f: "\<lfloor>\<bar>x\<bar> * 1000 + 1 / 2\<rfloor> = n" using assms(2,3) by (rule floor_unique)
  have "\<not> 10 ^ 21 \<le> \<bar>x\<bar>" using assms(1) by simp
  then show ?thesis by (simp only: toFixed3.simps if_False Let_def f)
qed

text \<open>The binary64 values of the literals used below.\<close>

lemma literal_0_1: "literal (1 / 10) = Fin (3602879701896397 / 36028797018963968)"
  unfolding literal_def
  by (rule round_binary64_nearest [where e = "- 4" and m = 7205759403792794]) simp_all

lemma literal_0_2: "literal (2 / 10) = Fin (3602879701896397 / 18014398509481984)"
  unfolding literal_def
  by (rule round_binary64_nearest [where e = "- 3" and m = 7205759403792794]) simp_all

lemma literal_0_3: "literal (3 / 10) = Fin (5404319552844595 / 18014398509481984)"
  unfolding literal_def
  by (rule round_binary64_nearest [where e = "- 2" and m = 5404319552844595]) simp_all

lemma literal_0_9: "literal (9 / 10) = Fin (8106479329266893 / 9007199254740992)"
  unfolding literal_def
  by (rule round_binary64_nearest [where e = "- 1" and m = 8106479329266893]) simp_all

lemma literal_0_5: "literal (1 / 2) = Fin (1 / 2)"
  unfolding literal_def
  by (rule round_binary64_nearest [where e = "- 1" and m = 4503599627370496]) simp_all

lemma literal_0_063: "literal (63 / 1000) = Fin (1134907106097365 / 18014398509481984)"
  unfolding literal_def
  by (rule round_binary64_nearest [where e = "- 4" and m = 4539628424389460]) simp_all

lemma literal_0_062: "literal (62 / 1000) = Fin (1116892707587883 / 18014398509481984)"
  unfolding literal_def
  by (rule round_binary64_nearest [where e = "- 5" and m = 8935141660703064]) simp_all

text \<open>
  \<^verbatim>\<open>0.1 + 0.2 + 0.3\<close>, left to right from \<^verbatim>\<open>0\<close>: both additions of two non-zero numbers
  hit a tie and round to the even neighbour, giving \<^verbatim>\<open>0.30000000000000004\<close> and then
  \<^verbatim>\<open>0.6000000000000001\<close>; a third of that is \<^verbatim>\<open>0.20000000000000004\<close>.
\<close>

lemma sum_0_1: "js_add (Fin 0) (Fin (3602879701896397 / 36028797018963968))
    = Fin (3602879701896397 / 36028797018963968)"
  unfolding js_add.simps
  by (rule round_binary64_nearest [where e = "- 4" and m = 7205759403792794]) simp_all

lemma sum_0_1_0_2:
  "js_add (Fin (3602879701896397 / 36028797018963968)) (Fin (3602879701896397 / 18014398509481984))
     = Fin (1351079888211149 / 4503599627370496)"
  unfolding js_add.simps
  by (rule round_binary64_tie [where e = "- 2" and m = 5404319552844595]) simp_all

lemma sum_0_1_0_2_0_3:
  "js_add (Fin (1351079888211149 / 4503599627370496)) (Fin (5404319552844595 / 18014398509481984))
     = Fin (1351079888211149 / 2251799813685248)"
  unfolding js_add.simps
  by (rule round_binary64_tie [where e = "- 1" and m = 5404319552844595]) simp_all

lemma third_of_sum:
  "js_div_length (Fin (1351079888211149 / 2251799813685248)) 3
     = Fin (7205759403792795 / 36028797018963968)"
  unfolding js_div_length.simps
  by (simp, rule round_binary64_nearest [where e = "- 3" and m = 7205759403792795]) simp_all

lemma toFixed3_third_of_sum:
  "toFixed3 (Fin (7205759403792795 / 36028797018963968)) = literal (2 / 10)"
  using toFixed3_nearest [of "7205759403792795 / 36028797018963968" 200]
  by (simp add: literal_def)

lemma average_0_1_0_2_0_3:
  "calculateAverageProbability
     [\<lparr>probability = literal (1 / 10)\<rparr>, \<lparr>probability = literal (2 / 10)\<rparr>,
      \<lparr>probability = literal (3 / 10)\<rparr>] = literal (2 / 10)"
proof -
  have "foldl (\<lambda>sum word. js_add sum (probability word)) (Fin 0)
          [\<lparr>probability = literal (1 / 10)\<rparr>, \<lparr>probability = literal (2 / 10)\<rparr>,
           \<lparr>probability = literal (3 / 10)\<rparr>]
        = Fin (1351079888211149 / 2251799813685248)"
    by (simp only: foldl.simps WordInfo.simps literal_0_1 literal_0_2 literal_0_3
          sum_0_1 sum_0_1_0_2 sum_0_1_0_2_0_3)
  moreover have "length [\<lparr>probability = literal (1 / 10)\<rparr>, \<lparr>probability = literal (2 / 10)\<rparr>,
      \<lparr>probability = literal (3 / 10)\<rparr>] = 3" by simp
  ultimately show ?thesis
    by (simp only: calculateAverageProbability_def Let_def third_of_sum toFixed3_third_of_sum)
       simp
qed

text \<open>
  The two words \<^verbatim>\<open>0.12499999999999999\<close> (the binary64 value just below \<open>1 / 8\<close>) and
  \<open>2 ^ -57\<close>: their sum lies half-way between two binary64 values and rounds to \<open>1 / 8\<close>.
\<close>

lemma below_eighth_binary64:
  "round_binary64 (9007199254740991 / 72057594037927936)
     = Fin (9007199254740991 / 72057594037927936)"
  by (rule round_binary64_nearest [where e = "- 4" and m = 9007199254740991]) simp_all

lemma tiny_binary64:
  "round_binary64 (1 / 144115188075855872) = Fin (1 / 144115188075855872)"
  by (rule round_binary64_nearest [where e = "- 57" and m = 4503599627370496]) simp_all

lemma sum_below_eighth:
  "js_add (Fin 0) (Fin (9007199254740991 / 72057594037927936))
     = Fin (9007199254740991 / 72057594037927936)"
  using below_eighth_binary64 by simp

lemma sum_below_eighth_tiny:
  "js_add (Fin (9007199254740991 / 72057594037927936)) (Fin (1 / 144115188075855872))
     = Fin (1 / 8)"
  unfolding js_add.simps
  by (rule round_binary64_tie [where e = "- 4" and m = 9007199254740991]) simp_all

lemma half_of_eighth: "js_div_length (Fin (1 / 8)) 2 = Fin (1 / 16)"
  unfolding js_div_length.simps
  by (simp, rule round_binary64_nearest [where e = "- 4" and m = 4503599627370496]) simp_all

lemma toFixed3_sixteenth: "toFixed3 (Fin (1 / 16)) = literal (63 / 1000)"
  using toFixed3_nearest [of "1 / 16" 63]
  by (simp add: literal_def)

lemma average_below_eighth_tiny:
  "calculateAverageProbability
     [\<lparr>probability = Fin (9007199254740991 / 72057594037927936)\<rparr>,
      \<lparr>probability = Fin (1 / 144115188075855872)\<rparr>] = literal (63 / 1000)"
proof -
  have "foldl (\<lambda>sum word. js_add sum (probability word)) (Fin 0)
          [\<lparr>probability = Fin (9007199254740991 / 72057594037927936)\<rparr>,
           \<lparr>probability = Fin (1 / 144115188075855872)\<rparr>]
        = Fin (1 / 8)"
    by (simp only: foldl.simps WordInfo.simps sum_below_eighth sum_below_eighth_tiny)
  moreover have "length [\<lparr>probability = Fin (9007199254740991 / 72057594037927936)\<rparr>,
      \<lparr>probability = Fin (1 / 144115188075855872)\<rparr>] = 2" by simp
  ultimately show ?thesis
    by (simp only: calculateAverageProbability_def Let_def half_of_eighth toFixed3_sixteenth)
       simp
qed

text \<open>One word of probability 0.9, and one of probability 0.\<close>

lemma average_0_9:
  "calculateAverageProbability [\<lparr>probability = literal (9 / 10)\<rparr>] = literal (9 / 10)"
proof -
  have a: "js_add (Fin 0) (Fin (8106479329266893 / 9007199254740992))
      = Fin (8106479329266893 / 9007199254740992)"
    unfolding js_add.simps
    by (rule round_binary64_nearest [where e = "- 1" and m = 8106479329266893]) simp_all
  have d: "js_div_length (Fin (8106479329266893 / 9007199254740992)) 1
      = Fin (8106479329266893 / 9007199254740992)"
    unfolding js_div_length.simps
    by (simp, rule round_binary64_nearest [where e = "- 1" and m = 8106479329266893]) simp_all
  have f: "toFixed3 (Fin (8106479329266893 / 9007199254740992)) = literal (9 / 10)"
    using toFixed3_nearest [of "8106479329266893 / 9007199254740992" 900]
    by (simp add: literal_def)
  have "foldl (\<lambda>sum word. js_add sum (probability word)) (Fin 0)
          [\<lparr>probability = literal (9 / 10)\<rparr>] = Fin (8106479329266893 / 9007199254740992)"
    by (simp only: foldl.simps WordInfo.simps literal_0_9 a)
  moreover have "length [\<lparr>probability = literal (9 / 10)\<rparr>] = 1" by simp
  ultimately show ?thesis
    by (simp only: calculateAverageProbability_def Let_def d f) simp
qed

lemma average_0: "calculateAverageProbability [\<lparr>probability = Fin 0\<rparr>] = Fin 0"
proof -
  have f: "toFixed3 (Fin 0) = Fin 0"
    using toFixed3_nearest [of 0 0] by (simp add: round_binary64_def)
  show ?thesis
    by (simp add: calculateAverageProbability_def round_binary64_def f del: toFixed3.simps)
qed


section \<open>The segment validity filter\<close>

lemma isSegmentValid_console:
  "fst (isSegmentValid this segment con) = judged_valid this segment"
  by (simp add: judged_valid_def isSegmentValid_def Let_def split: option.splits)

lemma judged_valid_threshold:
  "probabilityThreshold this = probabilityThreshold that
     \<Longrightarrow> judged_valid this segment = judged_valid that segment"
  by (simp add: judged_valid_def isSegmentValid_def Let_def split: option.splits)

lemma isSegmentValid_silent:
  "\<not> enableDebugLogging this \<Longrightarrow> snd (isSegmentValid this segment con) = con"
  by (simp add: isSegmentValid_def logValidation_def logValidationDetails_def Let_def
        split: option.splits)

lemma extract_loop_takeWhile:
  "fst (extract_loop this segments acc con) = acc @ takeWhile (judged_valid this) segments"
proof (induction segments arbitrary: acc con)
  case Nil
  show ?case by simp
next
  case (Cons s rest)
  obtain ok con' where step: "isSegmentValid this s con = (ok, con')"
    by (cases "isSegmentValid this s con")
  then have ok: "ok = judged_valid this s"
    using isSegmentValid_console [of this s con] by simp
  show ?case
  proof (cases ok)
    case True
    with step ok Cons.IH [of "acc @ [s]" con'] show ?thesis by simp
  next
    case False
    with step ok show ?thesis by simp
  qed
qed

lemma extract_loop_silent:
  "\<not> enableDebugLogging this \<Longrightarrow> snd (extract_loop this segments acc con) = con"
proof (induction segments arbitrary: acc con)
  case Nil
  show ?case by simp
next
  case (Cons s rest)
  obtain ok con' where step: "isSegmentValid this s con = (ok, con')"
    by (cases "isSegmentValid this s con")
  with isSegmentValid_silent [OF Cons.prems, of s con] have "con' = con" by simp
  with step Cons.IH [OF Cons.prems] show ?case by (cases ok) simp_all
qed

lemma extractValidSegments_takeWhile:
  "fst (extractValidSegments this segments con) = takeWhile (judged_valid this) segments"
  by (simp add: extractValidSegments_def extract_loop_takeWhile)

lemma takeWhile_stops:
  assumes "k < length xs" and "\<not> P (xs ! k)"
  shows "length (takeWhile P xs) \<le> k"
proof (rule ccontr)
  assume "\<not> length (takeWhile P xs) \<le> k"
  then have k: "k < length (takeWhile P xs)" by simp
  then have "takeWhile P xs ! k \<in> set (takeWhile P xs)" by simp
  then have "P (takeWhile P xs ! k)" by (blast dest: set_takeWhileD)
  with takeWhile_nth [OF k] assms(2) show False by simp
qed

lemma judged_valid_iff:
  assumes "\<not> isEndSegment segment" and "words segment = Some ws" and "ws \<noteq> []"
  shows "judged_valid this segment \<longleftrightarrow>
           (length (trim (rawText segment)) \<le> 2
              \<and> js_strict_eq (calculateAverageProbability ws) (Fin 0))
           \<or> js_gt (calculateAverageProbability ws) (probabilityThreshold this)"
  using assms by (auto simp: judged_valid_def isSegmentValid_def Let_def)

lemma judged_invalid_end_or_no_words:
  assumes "isEndSegment segment \<or> words segment = None \<or> words segment = Some []"
  shows "\<not> judged_valid this segment"
  using assms by (auto simp: judged_valid_def isSegmentValid_def Let_def)

text \<open>The example segments.\<close>

lemma trim_hi: "trim [0x68, 0x69] = [0x68, 0x69]"
  by (simp add: trim_def is_white_space_def)

lemma literal_0_9_gt_0_5: "js_gt (literal (9 / 10)) (literal (1 / 2))"
  by (simp add: literal_0_9 literal_0_5)

lemma literal_0_9_not_0: "\<not> js_strict_eq (literal (9 / 10)) (Fin 0)"
  by (simp add: literal_0_9)

lemma isSegmentValid_hi:
  "isSegmentValid (extractor_half debug) segment_hi con =
     (True,
      if debug
      then con @ [Segment_Validation (literal (9 / 10)) [0x68, 0x69],
                  Validation_Status Accepted_Probability_within_threshold [0x68, 0x69]]
      else con)"
  by (simp add: isSegmentValid_def isEndSegment_def segment_hi_def extractor_half_def
        average_0_9 trim_hi literal_0_9_gt_0_5 literal_0_9_not_0 logValidation_def
        logValidationDetails_def Let_def)

lemma segment_hi_valid: "judged_valid (extractor_half debug) segment_hi"
  by (simp add: isSegmentValid_console [symmetric, of _ _ "[]"] isSegmentValid_hi)

lemma segment_end_is_end: "isEndSegment segment_end"
  by (simp add: isEndSegment_def segment_end_def)

lemma isSegmentValid_end:
  "isSegmentValid (extractor_half True) segment_end con =
     (False, con @ [Validation_Status Rejected_Termination_segment [0x68, 0x69]])"
  using segment_end_is_end
  by (simp add: isSegmentValid_def logValidation_def extractor_half_def)
     (simp add: segment_end_def trim_hi)

lemma segment_end_invalid: "\<not> judged_valid this segment_end"
  using segment_end_is_end by (simp add: judged_invalid_end_or_no_words)

lemma segment_zero_valid: "judged_valid this segment_zero"
proof -
  have "\<not> isEndSegment segment_zero" by (simp add: isEndSegment_def segment_zero_def)
  moreover have "words segment_zero = Some [\<lparr>probability = Fin 0\<rparr>]"
    by (simp add: segment_zero_def)
  moreover have "length (trim (rawText segment_zero)) \<le> 2"
    by (simp add: segment_zero_def trim_hi)
  ultimately show ?thesis by (simp add: judged_valid_iff average_0)
qed

lemma extract_hi_end_hi:
  "fst (extractValidSegments (extractor_half debug) [segment_hi, segment_end, segment_hi] con)
     = [segment_hi]"
  by (simp add: extractValidSegments_takeWhile segment_hi_valid segment_end_invalid)

text \<open>
  C1. For every sequence of segments, \<^verbatim>\<open>extractValidSegments\<close> returns a contiguous prefix
  of its input: the segments in order up to the first one judged invalid, where it stops.
  The output is \<open>takeWhile\<close> of the verdict, so it is the first so many segments of the
  input, all of them judged valid, and when it is shorter than the input the next segment
  of the input is the first invalid one; what follows that segment never appears, valid
  or not. The verdict on a segment does not depend on the state of the console.
\<close>

theorem extractValidSegments_prefix:
  "fst (extractValidSegments this segments con) = takeWhile (judged_valid this) segments
   \<and> prefix (fst (extractValidSegments this segments con)) segments
   \<and> fst (extractValidSegments this segments con)
       = take (length (fst (extractValidSegments this segments con))) segments
   \<and> list_all (judged_valid this) (fst (extractValidSegments this segments con))
   \<and> (length (fst (extractValidSegments this segments con)) < length segments \<longrightarrow>
        \<not> judged_valid this (segments ! length (fst (extractValidSegments this segments con))))
   \<and> (\<forall>segment c. fst (isSegmentValid this segment c) = judged_valid this segment)"
proof -
  let ?out = "fst (extractValidSegments this segments con)"
  have out: "?out = takeWhile (judged_valid this) segments"
    by (rule extractValidSegments_takeWhile)
  have "prefix ?out segments" unfolding out by (rule takeWhile_is_prefix)
  moreover have "?out = take (length ?out) segments"
    unfolding out by (rule takeWhile_eq_take)
  moreover have "list_all (judged_valid this) ?out"
    unfolding out by (auto simp: list_all_iff dest: set_takeWhileD)
  moreover have "length ?out < length segments \<longrightarrow> \<not> judged_valid this (segments ! length ?out)"
    unfolding out by (auto dest: nth_length_takeWhile)
  ultimately show ?thesis using out isSegmentValid_console by blast
qed

theorem extractValidSegments_prefix_witness:
  "fst (extractValidSegments (extractor_half True) [segment_hi, segment_end, segment_hi] [])
     = [segment_hi]
   \<and> prefix [segment_hi] [segment_hi, segment_end, segment_hi]
   \<and> length [segment_hi] < length [segment_hi, segment_end, segment_hi]
   \<and> \<not> judged_valid (extractor_half True) ([segment_hi, segment_end, segment_hi] ! 1)
   \<and> judged_valid (extractor_half True) ([segment_hi, segment_end, segment_hi] ! 2)"
  using extractValidSegments_prefix
          [of "extractor_half True" "[segment_hi, segment_end, segment_hi]" "[]"]
  by (simp add: extract_hi_end_hi segment_hi_valid)

text \<open>
  C3. If the segment at position \<open>k\<close> (0-based) is an end marker (\<^verbatim>\<open>startTime\<close> and
  \<^verbatim>\<open>endTime\<close> are equal) or its \<^verbatim>\<open>words\<close> are missing or empty, the segment is judged
  invalid, and the output of the filter has length at most \<open>k\<close>, whatever follows.
\<close>

theorem end_marker_or_no_words_stops_scan:
  assumes "k < length segments"
    and "isEndSegment (segments ! k) \<or> words (segments ! k) = None
           \<or> words (segments ! k) = Some []"
  shows "\<not> fst (isSegmentValid this (segments ! k) c)
         \<and> length (fst (extractValidSegments this segments con)) \<le> k"
proof -
  have inv: "\<not> judged_valid this (segments ! k)"
    using assms(2) by (rule judged_invalid_end_or_no_words)
  then have "\<not> fst (isSegmentValid this (segments ! k) c)"
    by (simp add: isSegmentValid_console)
  moreover have "length (fst (extractValidSegments this segments con)) \<le> k"
    unfolding extractValidSegments_takeWhile using assms(1) inv by (rule takeWhile_stops)
  ultimately show ?thesis by simp
qed

theorem end_marker_or_no_words_stops_scan_witness:
  "1 < length [segment_hi, segment_end, segment_hi]
   \<and> isEndSegment ([segment_hi, segment_end, segment_hi] ! 1)
   \<and> \<not> fst (isSegmentValid (extractor_half True) ([segment_hi, segment_end, segment_hi] ! 1) [])
   \<and> length (fst (extractValidSegments (extractor_half True)
                     [segment_hi, segment_end, segment_hi] [])) \<le> 1"
  using end_marker_or_no_words_stops_scan
          [of 1 "[segment_hi, segment_end, segment_hi]" "extractor_half True" "[]" "[]"]
  by (simp add: segment_end_is_end)

text \<open>
  C7. \<^verbatim>\<open>extractValidSegments\<close> has no hidden state and its result does not depend on
  \<^verbatim>\<open>enableDebugLogging\<close>: the segments returned are the same for the same threshold and
  input, whatever the console held before and whether the flag is on or off. With the
  flag off the console is left as it was.
\<close>

theorem extractValidSegments_deterministic:
  "fst (extractValidSegments \<lparr>probabilityThreshold = t, enableDebugLogging = True\<rparr> segments con1)
     = fst (extractValidSegments \<lparr>probabilityThreshold = t, enableDebugLogging = False\<rparr>
              segments con2)
   \<and> fst (extractValidSegments this segments con1) = fst (extractValidSegments this segments con2)
   \<and> snd (extractValidSegments \<lparr>probabilityThreshold = t, enableDebugLogging = False\<rparr>
             segments con2) = con2"
proof -
  have "judged_valid \<lparr>probabilityThreshold = t, enableDebugLogging = True\<rparr>
      = judged_valid \<lparr>probabilityThreshold = t, enableDebugLogging = False\<rparr>"
    by (rule ext) (simp add: judged_valid_threshold)
  then show ?thesis
    by (simp add: extractValidSegments_takeWhile)
       (simp add: extractValidSegments_def extract_loop_silent)
qed

theorem extractValidSegments_deterministic_witness:
  "fst (extractValidSegments (extractor_half True) [segment_hi, segment_end, segment_hi] [])
     = fst (extractValidSegments (extractor_half False) [segment_hi, segment_end, segment_hi] [])
   \<and> snd (extractValidSegments (extractor_half False) [segment_hi, segment_end, segment_hi] [])
       = []
   \<and> snd (extractValidSegments (extractor_half True) [segment_hi, segment_end, segment_hi] [])
       = [Segment_Validation (literal (9 / 10)) [0x68, 0x69],
          Validation_Status Accepted_Probability_within_threshold [0x68, 0x69],
          Validation_Status Rejected_Termination_segment [0x68, 0x69]]"
proof -
  have "snd (extractValidSegments (extractor_half True) [segment_hi, segment_end, segment_hi] [])
      = [Segment_Validation (literal (9 / 10)) [0x68, 0x69],
         Validation_Status Accepted_Probability_within_threshold [0x68, 0x69],
         Validation_Status Rejected_Termination_segment [0x68, 0x69]]"
    by (simp add: extractValidSegments_def isSegmentValid_hi isSegmentValid_end)
  then show ?thesis
    using extractValidSegments_deterministic
            [of "literal (1 / 2)" "[segment_hi, segment_end, segment_hi]" "[]" "[]"]
    by (simp add: extractor_half_def)
qed


lemma js_strict_eq_not_gt: "js_strict_eq a b \<Longrightarrow> \<not> js_gt a b"
  by (cases a; cases b) simp_all

lemma js_strict_eq_zero_trans:
  "js_strict_eq a b \<Longrightarrow> js_strict_eq a (Fin 0) \<Longrightarrow> js_strict_eq b (Fin 0)"
  by (cases a; cases b) simp_all

text \<open>
  C2, as the code has it. For every segment that is not an end marker and has a non-empty
  \<^verbatim>\<open>words\<close> sequence, the segment is judged valid if and only if (a) the trimmed
  \<^verbatim>\<open>rawText\<close> has at most 2 characters and the average probability is 0, or (b) the
  average probability is strictly greater than the threshold. A segment whose average
  equals the threshold is valid exactly when (a) holds, so it is invalid unless the
  threshold is 0 and the text is short; and (a) is accepted whatever the threshold.
\<close>

theorem isSegmentValid_iff:
  assumes "\<not> isEndSegment segment" and "words segment = Some ws" and "ws \<noteq> []"
  shows "(fst (isSegmentValid this segment con) \<longleftrightarrow>
            (length (trim (rawText segment)) \<le> 2
               \<and> js_strict_eq (calculateAverageProbability ws) (Fin 0))
            \<or> js_gt (calculateAverageProbability ws) (probabilityThreshold this))
         \<and> (js_strict_eq (calculateAverageProbability ws) (probabilityThreshold this) \<longrightarrow>
              (fst (isSegmentValid this segment con) \<longleftrightarrow>
                 length (trim (rawText segment)) \<le> 2
                   \<and> js_strict_eq (calculateAverageProbability ws) (Fin 0)))
         \<and> (js_strict_eq (calculateAverageProbability ws) (probabilityThreshold this)
                \<and> \<not> js_strict_eq (probabilityThreshold this) (Fin 0) \<longrightarrow>
              \<not> fst (isSegmentValid this segment con))
         \<and> (length (trim (rawText segment)) \<le> 2
                \<and> js_strict_eq (calculateAverageProbability ws) (Fin 0) \<longrightarrow>
              fst (isSegmentValid this segment con))"
proof -
  have iff: "fst (isSegmentValid this segment con) \<longleftrightarrow>
      (length (trim (rawText segment)) \<le> 2
         \<and> js_strict_eq (calculateAverageProbability ws) (Fin 0))
      \<or> js_gt (calculateAverageProbability ws) (probabilityThreshold this)"
    unfolding isSegmentValid_console using assms by (rule judged_valid_iff)
  show ?thesis
    using iff js_strict_eq_not_gt [of "calculateAverageProbability ws" "probabilityThreshold this"]
      js_strict_eq_zero_trans [of "calculateAverageProbability ws" "probabilityThreshold this"]
    by blast
qed

theorem isSegmentValid_iff_witness:
  "\<not> isEndSegment segment_zero
   \<and> words segment_zero = Some [\<lparr>probability = Fin 0\<rparr>]
   \<and> length (trim (rawText segment_zero)) \<le> 2
   \<and> js_strict_eq (calculateAverageProbability [\<lparr>probability = Fin 0\<rparr>]) (Fin 0)
   \<and> js_gt (probabilityThreshold (extractor_half False)) (Fin 0)
   \<and> \<not> js_gt (calculateAverageProbability [\<lparr>probability = Fin 0\<rparr>])
           (probabilityThreshold (extractor_half False))
   \<and> fst (isSegmentValid (extractor_half False) segment_zero [])"
proof -
  have "\<not> isEndSegment segment_zero" by (simp add: isEndSegment_def segment_zero_def)
  moreover have "words segment_zero = Some [\<lparr>probability = Fin 0\<rparr>]"
    by (simp add: segment_zero_def)
  moreover have "length (trim (rawText segment_zero)) \<le> 2"
    by (simp add: segment_zero_def trim_hi)
  ultimately show ?thesis
    using isSegmentValid_iff
            [of segment_zero "[\<lparr>probability = Fin 0\<rparr>]" "extractor_half False" "[]"]
    by (simp add: average_0 extractor_half_def literal_0_5)
qed

text \<open>
  C2 as stated fails in one point: a segment whose average probability equals the
  threshold can be valid. With threshold 0, the segment from 0 to 1 with text \<^verbatim>\<open>hi\<close> and
  one word of probability 0 is not an end marker, has words, has average 0, equal to the
  threshold, and is judged valid by the short-text case.
\<close>

theorem equal_to_threshold_judged_valid:
  "\<not> isEndSegment segment_zero
   \<and> words segment_zero = Some [\<lparr>probability = Fin 0\<rparr>]
   \<and> js_strict_eq (calculateAverageProbability [\<lparr>probability = Fin 0\<rparr>])
         (probabilityThreshold extractor_zero)
   \<and> \<not> js_gt (calculateAverageProbability [\<lparr>probability = Fin 0\<rparr>])
           (probabilityThreshold extractor_zero)
   \<and> fst (isSegmentValid extractor_zero segment_zero [])"
  using segment_zero_valid [of extractor_zero]
  by (simp add: isSegmentValid_console average_0 extractor_zero_def)
     (simp add: isEndSegment_def segment_zero_def)

section \<open>The average probability\<close>

lemma total_0_1_0_2_0_3:
  "foldl (\<lambda>sum word. js_add sum (probability word)) (Fin 0)
     [\<lparr>probability = literal (1 / 10)\<rparr>, \<lparr>probability = literal (2 / 10)\<rparr>,
      \<lparr>probability = literal (3 / 10)\<rparr>]
   = Fin (1351079888211149 / 2251799813685248)"
  by (simp only: foldl.simps WordInfo.simps literal_0_1 literal_0_2 literal_0_3
        sum_0_1 sum_0_1_0_2 sum_0_1_0_2_0_3)

lemma toFixed3_within_half_a_thousandth:
  assumes "\<bar>m\<bar> < 10 ^ 21"
  shows "\<exists>n::int. \<bar>of_int n / 1000 - m\<bar> \<le> 1 / 2000
           \<and> toFixed3 (Fin m) = round_binary64 (of_int n / 1000)"
proof -
  define k where "k = \<lfloor>\<bar>m\<bar> * 1000 + 1 / 2\<rfloor>"
  have k: "of_int k \<le> \<bar>m\<bar> * 1000 + 1 / 2" "\<bar>m\<bar> * 1000 + 1 / 2 < of_int k + 1"
    unfolding k_def using floor_correct [of "\<bar>m\<bar> * 1000 + 1 / 2"] by simp_all
  have fx: "toFixed3 (Fin m) = round_binary64 ((if m < 0 then - 1 else 1) * of_int k / 1000)"
    using assms k by (rule toFixed3_nearest)
  have near: "\<bar>of_int k / 1000 - \<bar>m\<bar>\<bar> \<le> 1 / 2000" using k by linarith
  show ?thesis
  proof (cases "m < 0")
    case True
    have "\<bar>of_int (- k) / 1000 - m\<bar> = \<bar>of_int k / 1000 - \<bar>m\<bar>\<bar>" using True by simp
    with near fx True show ?thesis
      by (intro exI [of _ "- k"]) simp
  next
    case False
    with near fx show ?thesis by (intro exI [of _ k]) simp
  qed
qed

text \<open>
  C6, as the code has it. For every non-empty list of words, \<^verbatim>\<open>calculateAverageProbability\<close>
  returns \<^verbatim>\<open>+(total / length).toFixed(3)\<close>, where \<^verbatim>\<open>total\<close> is the sum accumulated from
  \<^verbatim>\<open>0\<close> left to right, each addition and the division rounded to binary64. When that
  quotient \<open>m\<close> is finite and below \<open>10 ^ 21\<close> in magnitude, the result is the binary64
  value of a number of three decimals, \<open>n / 1000\<close>, within \<open>0.0005\<close> of \<open>m\<close>. For the
  probabilities 0.1, 0.2 and 0.3 it returns 0.2.
\<close>

theorem calculateAverageProbability_binary64:
  "(ws \<noteq> [] \<longrightarrow>
      calculateAverageProbability ws =
        toFixed3 (js_div_length
                    (foldl (\<lambda>sum word. js_add sum (probability word)) (Fin 0) ws) (length ws)))
   \<and> (ws \<noteq> []
         \<and> js_div_length (foldl (\<lambda>sum word. js_add sum (probability word)) (Fin 0) ws)
              (length ws) = Fin m
         \<and> \<bar>m\<bar> < 10 ^ 21 \<longrightarrow>
       (\<exists>n::int. \<bar>of_int n / 1000 - m\<bar> \<le> 1 / 2000
           \<and> calculateAverageProbability ws = round_binary64 (of_int n / 1000)))
   \<and> calculateAverageProbability
         [\<lparr>probability = literal (1 / 10)\<rparr>, \<lparr>probability = literal (2 / 10)\<rparr>,
          \<lparr>probability = literal (3 / 10)\<rparr>] = literal (2 / 10)"
proof -
  have unfold: "ws \<noteq> [] \<longrightarrow>
      calculateAverageProbability ws =
        toFixed3 (js_div_length
                    (foldl (\<lambda>sum word. js_add sum (probability word)) (Fin 0) ws) (length ws))"
    by (simp add: calculateAverageProbability_def Let_def)
  moreover have "ws \<noteq> []
         \<and> js_div_length (foldl (\<lambda>sum word. js_add sum (probability word)) (Fin 0) ws)
              (length ws) = Fin m
         \<and> \<bar>m\<bar> < 10 ^ 21 \<longrightarrow>
       (\<exists>n::int. \<bar>of_int n / 1000 - m\<bar> \<le> 1 / 2000
           \<and> calculateAverageProbability ws = round_binary64 (of_int n / 1000))"
    using unfold toFixed3_within_half_a_thousandth [of m] by auto
  ultimately show ?thesis using average_0_1_0_2_0_3 by blast
qed

theorem calculateAverageProbability_binary64_witness:
  "js_div_length
     (foldl (\<lambda>sum word. js_add sum (probability word)) (Fin 0)
        [\<lparr>probability = literal (1 / 10)\<rparr>, \<lparr>probability = literal (2 / 10)\<rparr>,
         \<lparr>probability = literal (3 / 10)\<rparr>])
     (length [\<lparr>probability = literal (1 / 10)\<rparr>, \<lparr>probability = literal (2 / 10)\<rparr>,
              \<lparr>probability = literal (3 / 10)\<rparr>])
     = Fin (7205759403792795 / 36028797018963968)
   \<and> (\<exists>n::int. \<bar>of_int n / 1000 - 7205759403792795 / 36028797018963968 :: rat\<bar> \<le> 1 / 2000
         \<and> calculateAverageProbability
             [\<lparr>probability = literal (1 / 10)\<rparr>, \<lparr>probability = literal (2 / 10)\<rparr>,
              \<lparr>probability = literal (3 / 10)\<rparr>] = round_binary64 (of_int n / 1000))
   \<and> calculateAverageProbability
         [\<lparr>probability = literal (1 / 10)\<rparr>, \<lparr>probability = literal (2 / 10)\<rparr>,
          \<lparr>probability = literal (3 / 10)\<rparr>] = literal (2 / 10)"
proof -
  have q: "js_div_length
     (foldl (\<lambda>sum word. js_add sum (probability word)) (Fin 0)
        [\<lparr>probability = literal (1 / 10)\<rparr>, \<lparr>probability = literal (2 / 10)\<rparr>,
         \<lparr>probability = literal (3 / 10)\<rparr>])
     (length [\<lparr>probability = literal (1 / 10)\<rparr>, \<lparr>probability = literal (2 / 10)\<rparr>,
              \<lparr>probability = literal (3 / 10)\<rparr>])
     = Fin (7205759403792795 / 36028797018963968)"
  proof -
    have "length [\<lparr>probability = literal (1 / 10)\<rparr>, \<lparr>probability = literal (2 / 10)\<rparr>,
              \<lparr>probability = literal (3 / 10)\<rparr>] = 3" by simp
    then show ?thesis by (simp only: total_0_1_0_2_0_3 third_of_sum)
  qed
  have b: "\<bar>7205759403792795 / 36028797018963968 :: rat\<bar> < 10 ^ 21" by simp
  have ne: "[\<lparr>probability = literal (1 / 10)\<rparr>, \<lparr>probability = literal (2 / 10)\<rparr>,
              \<lparr>probability = literal (3 / 10)\<rparr>] \<noteq> []" by simp
  note T = calculateAverageProbability_binary64
        [of "[\<lparr>probability = literal (1 / 10)\<rparr>, \<lparr>probability = literal (2 / 10)\<rparr>,
              \<lparr>probability = literal (3 / 10)\<rparr>]" "7205759403792795 / 36028797018963968"]
  have ex: "\<exists>n::int. \<bar>of_int n / 1000 - 7205759403792795 / 36028797018963968 :: rat\<bar> \<le> 1 / 2000
         \<and> calculateAverageProbability
             [\<lparr>probability = literal (1 / 10)\<rparr>, \<lparr>probability = literal (2 / 10)\<rparr>,
              \<lparr>probability = literal (3 / 10)\<rparr>] = round_binary64 (of_int n / 1000)"
    by (rule mp [OF conjunct1 [OF conjunct2 [OF T]]]) (intro conjI ne q b)
  show ?thesis
    by (intro conjI q ex conjunct2 [OF conjunct2 [OF T]])
qed

text \<open>
  C6 as stated fails: the result is not always the arithmetic mean rounded to 3 decimal
  places. The words \<^verbatim>\<open>0.12499999999999999\<close> (\<open>(2 ^ 53 - 1) / 2 ^ 56\<close>) and \<open>2 ^ -57\<close> are
  binary64 values between 0 and 1. Their mean is below \<open>0.0625\<close> and above \<open>0.062\<close>, so to
  3 decimal places it is \<open>0.062\<close> under every way of breaking ties. Their binary64 sum is
  \<open>0.125\<close>, its half is \<open>0.0625\<close>, and \<^verbatim>\<open>toFixed(3)\<close> takes it to \<open>0.063\<close>.
\<close>

theorem calculateAverageProbability_not_exact_mean:
  "round_binary64 (9007199254740991 / 72057594037927936)
     = Fin (9007199254740991 / 72057594037927936)
   \<and> round_binary64 (1 / 144115188075855872) = Fin (1 / 144115188075855872)
   \<and> \<bar>(9007199254740991 / 72057594037927936 + 1 / 144115188075855872) / 2 - 62 / 1000 :: rat\<bar>
       < 1 / 2000
   \<and> spec_avgProbability [9007199254740991 / 72057594037927936, 1 / 144115188075855872]
       = literal (62 / 1000)
   \<and> calculateAverageProbability
         [\<lparr>probability = Fin (9007199254740991 / 72057594037927936)\<rparr>,
          \<lparr>probability = Fin (1 / 144115188075855872)\<rparr>] = literal (63 / 1000)
   \<and> literal (63 / 1000) \<noteq> literal (62 / 1000)"
proof -
  have "\<lfloor>sum_list [9007199254740991 / 72057594037927936, 1 / 144115188075855872 :: rat]
          / of_nat (length [9007199254740991 / 72057594037927936, 1 / 144115188075855872 :: rat])
          * 1000 + 1 / 2\<rfloor> = 62"
    by (rule floor_unique) simp_all
  then have "spec_avgProbability [9007199254740991 / 72057594037927936, 1 / 144115188075855872]
      = literal (62 / 1000)"
    by (simp only: spec_avgProbability_def) simp
  moreover have "literal (63 / 1000) \<noteq> literal (62 / 1000)"
    unfolding literal_0_063 literal_0_062 by simp
  moreover have "\<bar>(9007199254740991 / 72057594037927936 + 1 / 144115188075855872) / 2
      - 62 / 1000 :: rat\<bar> < 1 / 2000"
    by simp
  ultimately show ?thesis
    using below_eighth_binary64 tiny_binary64 average_below_eighth_tiny by blast
qed


section \<open>The object store gateway\<close>

lemma downloadFile_result:
  "fst (downloadFile X fileName downloadPath (w, tr))
     = fst (fGetObject X (bucketName X) fileName downloadPath w)
   \<and> fst (snd (downloadFile X fileName downloadPath (w, tr)))
     = snd (fGetObject X (bucketName X) fileName downloadPath w)"
  by (cases "fGetObject X (bucketName X) fileName downloadPath w")
     (auto simp: downloadFile_def Let_def split: sum.splits)

lemma downloadFile_trace:
  "\<exists>ev. snd (snd (downloadFile X fileName downloadPath (w, tr)))
          = tr @ [Call_fGetObject (bucketName X) fileName downloadPath, ev]
        \<and> \<not> is_download_or_send ev"
  by (cases "fGetObject X (bucketName X) fileName downloadPath w")
     (auto simp: downloadFile_def Let_def split: sum.splits)

section \<open>The task-queue worker\<close>

lemma validateMessage_rejects:
  assumes "\<not> truthy requestData \<or> \<not> truthy (property_of requestData ''correlationId'')"
  shows "\<not> fst (validateMessage requestData tr)"
    and "\<exists>new. snd (validateMessage requestData tr) = tr @ new \<and> \<not> list_ex is_download_or_send new"
  using assms by (auto simp: validateMessage_def)

lemma process_try_block_trace:
  "\<exists>rest. snd (snd (process_try_block X requestData name path (w, tr)))
            = tr @ [Console_log ''Downloading file'' [JStr name, JStr path],
                    Call_fGetObject (bucketName X) name path] @ rest
          \<and> \<not> list_ex is_download rest"
  unfolding process_try_block_def downloadFile_def
  by (auto simp: Let_def split: prod.splits sum.splits)


lemma is_download_imp: "is_download ev \<Longrightarrow> is_download_or_send ev"
  by (cases ev) simp_all

lemma is_send_imp: "is_send ev \<Longrightarrow> is_download_or_send ev"
  by (cases ev) simp_all

lemma no_download_or_send:
  assumes "\<not> list_ex is_download_or_send evs"
  shows "\<not> list_ex is_download evs" and "filter is_send evs = []"
  using assms by (auto simp: list_ex_iff filter_empty_conv dest: is_download_imp is_send_imp)

lemma fileClaimCheck_string_is_object:
  assumes "property_of requestData ''fileClaimCheck'' = JStr name"
  shows "get_prop requestData ''correlationId'' = Inr (property_of requestData ''correlationId'')"
    and "\<exists>kvs. requestData = JObj kvs"
  using assms by (cases requestData; simp add: get_prop_def)+

lemma process_try_block_success:
  assumes "fGetObject X (bucketName X) name path w = (Inr (), w1)"
    and "statSync_size X path w1 = Inr fileSize"
  shows "filter is_send (snd (snd (process_try_block X requestData name path (w, tr))))
         = filter is_send tr
           @ [Call_sendMessageToQueue (responseTopic X)
                (JObj (AList.update ''timestamp'' (JStr (toISOString_now X w1))
                        (AList.update ''status'' (JStr ''Processed'')
                          (own_properties requestData))))]"
  using assms unfolding process_try_block_def downloadFile_def
  by (auto simp: Let_def split: prod.splits sum.splits)

lemma processAndRespondToKafka_trace:
  assumes "property_of requestData ''fileClaimCheck'' = JStr name"
  shows "\<exists>rest. snd (snd (processAndRespondToKafka X requestData (w, tr)))
            = snd (snd (process_try_block X requestData name (path_join X (tmpdir X) name)
                          (w, tr @ [Console_log ''Processing request with correlationId''
                                      [property_of requestData ''correlationId'']])))
              @ rest
          \<and> \<not> list_ex is_download_or_send rest"
  using assms fileClaimCheck_string_is_object(1) [OF assms]
  unfolding processAndRespondToKafka_def
  by (auto simp: Let_def split: prod.splits sum.splits)

text \<open>
  C5, as the code has it. For every job message whose \<^verbatim>\<open>fileClaimCheck\<close> field is a string
  (the shape \<^verbatim>\<open>RequestData\<close>: \<^verbatim>\<open>correlationId\<close>, \<^verbatim>\<open>referenceTexts\<close>, \<^verbatim>\<open>fileClaimCheck\<close>), the
  worker joins the temporary directory and that name into a local path and calls the
  object store's download once, with that same name and that path; no other download
  follows.
\<close>

theorem download_uses_fileClaimCheck:
  assumes "property_of requestData ''fileClaimCheck'' = JStr name"
  shows "\<exists>rest. snd (snd (processAndRespondToKafka X requestData (w, tr)))
            = tr @ [Console_log ''Processing request with correlationId''
                      [property_of requestData ''correlationId''],
                    Console_log ''Downloading file''
                      [JStr name, JStr (path_join X (tmpdir X) name)],
                    Call_fGetObject (bucketName X) name (path_join X (tmpdir X) name)]
                 @ rest
          \<and> \<not> list_ex is_download rest"
proof -
  obtain r1 where r1:
    "snd (snd (processAndRespondToKafka X requestData (w, tr)))
       = snd (snd (process_try_block X requestData name (path_join X (tmpdir X) name)
                     (w, tr @ [Console_log ''Processing request with correlationId''
                                 [property_of requestData ''correlationId'']])))
         @ r1"
    "\<not> list_ex is_download_or_send r1"
    using processAndRespondToKafka_trace [OF assms, of X w tr]
    by (elim exE conjE) (rule that, assumption+)
  obtain r2 where r2:
    "snd (snd (process_try_block X requestData name (path_join X (tmpdir X) name)
                 (w, tr @ [Console_log ''Processing request with correlationId''
                             [property_of requestData ''correlationId'']])))
       = (tr @ [Console_log ''Processing request with correlationId''
                  [property_of requestData ''correlationId'']])
         @ [Console_log ''Downloading file'' [JStr name, JStr (path_join X (tmpdir X) name)],
            Call_fGetObject (bucketName X) name (path_join X (tmpdir X) name)] @ r2"
    "\<not> list_ex is_download r2"
    using process_try_block_trace
            [of X requestData name "path_join X (tmpdir X) name" w
               "tr @ [Console_log ''Processing request with correlationId''
                        [property_of requestData ''correlationId'']]"]
    by (elim exE conjE) (rule that, assumption+)
  have "\<not> list_ex is_download r1"
    using r1(2) by (rule no_download_or_send)
  with r2(2) have "\<not> list_ex is_download (r2 @ r1)" by simp
  with r1(1) r2(1) show ?thesis by (intro exI [of _ "r2 @ r1"]) simp
qed

theorem download_uses_fileClaimCheck_witness:
  "property_of request_fileClaimCheck ''fileClaimCheck'' = JStr ''f1.wav''
   \<and> (\<exists>rest. snd (snd (processAndRespondToKafka externals_ok request_fileClaimCheck ((), [])))
            = [Console_log ''Processing request with correlationId'' [JStr ''c1''],
               Console_log ''Downloading file'' [JStr ''f1.wav'', JStr ''/tmp/f1.wav''],
               Call_fGetObject ''audio'' ''f1.wav'' ''/tmp/f1.wav''] @ rest
          \<and> \<not> list_ex is_download rest)"
proof -
  have p: "property_of request_fileClaimCheck ''fileClaimCheck'' = JStr ''f1.wav''"
    by (simp add: request_fileClaimCheck_def)
  have c: "property_of request_fileClaimCheck ''correlationId'' = JStr ''c1''"
    by (simp add: request_fileClaimCheck_def)
  show ?thesis
    using p download_uses_fileClaimCheck [OF p, of externals_ok "()" "[]"]
    by (simp add: c externals_ok_def)
qed

text \<open>
  C5 as stated fails for the inbound shape the spec gives, with the field \<^verbatim>\<open>claimCheck\<close>:
  the worker reads \<^verbatim>\<open>fileClaimCheck\<close>. The message \<^verbatim>\<open>{correlationId: "c1", referenceTexts:
  ["a"], claimCheck: "f1.wav"}\<close> passes \<^verbatim>\<open>validateMessage\<close>; \<^verbatim>\<open>fileClaimCheck\<close> is undefined,
  \<^verbatim>\<open>path.join\<close> throws before the \<^verbatim>\<open>try\<close>, and nothing is downloaded.
\<close>

theorem claimCheck_message_downloads_nothing:
  "fst (validateMessage request_claimCheck [])
   \<and> property_of request_claimCheck ''claimCheck'' = JStr ''f1.wav''
   \<and> processAndRespondToKafka externals_ok request_claimCheck ((), [])
       = (Inl TypeError,
          ((), [Console_log ''Processing request with correlationId'' [JStr ''c1'']]))
   \<and> \<not> list_ex is_download
           (snd (snd (processAndRespondToKafka externals_ok request_claimCheck ((), []))))"
  by (simp add: validateMessage_def request_claimCheck_def processAndRespondToKafka_def
        get_prop_def Let_def)

text \<open>
  C4, as the code has it. For every job (an object whose \<^verbatim>\<open>fileClaimCheck\<close> is a string)
  whose download succeeds and whose downloaded file can be inspected, the worker
  publishes one message to the response topic: the job's own kvs with \<^verbatim>\<open>status\<close> set
  to \<^verbatim>\<open>Processed\<close> and \<^verbatim>\<open>timestamp\<close> set to the current time. Every other field of the
  response is the job's: the worker does not run the segment filter and merges no
  segments into the payload.
\<close>

theorem response_after_successful_download:
  assumes "requestData = JObj kvs"
    and "property_of requestData ''fileClaimCheck'' = JStr name"
    and "fGetObject X (bucketName X) name (path_join X (tmpdir X) name) w = (Inr (), w1)"
    and "statSync_size X (path_join X (tmpdir X) name) w1 = Inr fileSize"
  shows "filter is_send (snd (snd (processAndRespondToKafka X requestData (w, tr))))
           = filter is_send tr
             @ [Call_sendMessageToQueue (responseTopic X)
                  (JObj (AList.update ''timestamp'' (JStr (toISOString_now X w1))
                          (AList.update ''status'' (JStr ''Processed'') kvs)))]
         \<and> property_of (JObj (AList.update ''timestamp'' (JStr (toISOString_now X w1))
                          (AList.update ''status'' (JStr ''Processed'') kvs))) ''status''
             = JStr ''Processed''
         \<and> property_of (JObj (AList.update ''timestamp'' (JStr (toISOString_now X w1))
                          (AList.update ''status'' (JStr ''Processed'') kvs))) ''timestamp''
             = JStr (toISOString_now X w1)
         \<and> (\<forall>k. k \<noteq> ''status'' \<and> k \<noteq> ''timestamp'' \<longrightarrow>
               property_of (JObj (AList.update ''timestamp'' (JStr (toISOString_now X w1))
                          (AList.update ''status'' (JStr ''Processed'') kvs))) k
                 = property_of requestData k)"
proof -
  obtain r1 where r1:
    "snd (snd (processAndRespondToKafka X requestData (w, tr)))
       = snd (snd (process_try_block X requestData name (path_join X (tmpdir X) name)
                     (w, tr @ [Console_log ''Processing request with correlationId''
                                 [property_of requestData ''correlationId'']])))
         @ r1"
    "\<not> list_ex is_download_or_send r1"
    using processAndRespondToKafka_trace [OF assms(2), of X w tr]
    by (elim exE conjE) (rule that, assumption+)
  have "filter is_send r1 = []"
    using r1(2) by (rule no_download_or_send)
  then have "filter is_send (snd (snd (processAndRespondToKafka X requestData (w, tr))))
      = filter is_send tr
        @ [Call_sendMessageToQueue (responseTopic X)
             (JObj (AList.update ''timestamp'' (JStr (toISOString_now X w1))
                     (AList.update ''status'' (JStr ''Processed'') kvs)))]"
    using r1(1) process_try_block_success [OF assms(3,4), of requestData] assms(1) by simp
  then show ?thesis
    by (simp add: assms(1) update_conv')
qed

theorem response_after_successful_download_witness:
  "request_fileClaimCheck
     = JObj [(''correlationId'', JStr ''c1''), (''referenceTexts'', JArr [JStr ''a'']),
             (''fileClaimCheck'', JStr ''f1.wav'')]
   \<and> fGetObject externals_ok (bucketName externals_ok) ''f1.wav''
         (path_join externals_ok (tmpdir externals_ok) ''f1.wav'') () = (Inr (), ())
   \<and> statSync_size externals_ok (path_join externals_ok (tmpdir externals_ok) ''f1.wav'') ()
       = Inr 4
   \<and> filter is_send (snd (snd (processAndRespondToKafka externals_ok request_fileClaimCheck ((), []))))
       = [Call_sendMessageToQueue ''response''
            (JObj [(''correlationId'', JStr ''c1''), (''referenceTexts'', JArr [JStr ''a'']),
                   (''fileClaimCheck'', JStr ''f1.wav''), (''status'', JStr ''Processed''),
                   (''timestamp'', JStr ''2025-01-01T00:00:00.000Z'')])]"
proof -
  have a: "request_fileClaimCheck
     = JObj [(''correlationId'', JStr ''c1''), (''referenceTexts'', JArr [JStr ''a'']),
             (''fileClaimCheck'', JStr ''f1.wav'')]"
    by (simp add: request_fileClaimCheck_def)
  have b: "property_of request_fileClaimCheck ''fileClaimCheck'' = JStr ''f1.wav''"
    by (simp add: request_fileClaimCheck_def)
  have c: "fGetObject externals_ok (bucketName externals_ok) ''f1.wav''
         (path_join externals_ok (tmpdir externals_ok) ''f1.wav'') () = (Inr (), ())"
    by (simp add: externals_ok_def)
  have d: "statSync_size externals_ok (path_join externals_ok (tmpdir externals_ok) ''f1.wav'') ()
       = Inr 4"
    by (simp add: externals_ok_def)
  show ?thesis
    using response_after_successful_download [OF a b c d, of "[]"] a c d
    by (simp add: externals_ok_def)
qed

text \<open>
  C4 as stated fails: the response carries no filtered segments. For the job
  \<^verbatim>\<open>{correlationId: "c1", referenceTexts: ["a"], fileClaimCheck: "f1.wav"}\<close>, with every
  outside call succeeding, the one message published is the job with \<^verbatim>\<open>status\<close> and
  \<^verbatim>\<open>timestamp\<close> added, and it has no \<^verbatim>\<open>segments\<close> field.
\<close>

theorem response_has_no_segments:
  "filter is_send (snd (snd (processAndRespondToKafka externals_ok request_fileClaimCheck ((), []))))
     = [Call_sendMessageToQueue ''response''
          (JObj [(''correlationId'', JStr ''c1''), (''referenceTexts'', JArr [JStr ''a'']),
                 (''fileClaimCheck'', JStr ''f1.wav''), (''status'', JStr ''Processed''),
                 (''timestamp'', JStr ''2025-01-01T00:00:00.000Z'')])]
   \<and> property_of
         (JObj [(''correlationId'', JStr ''c1''), (''referenceTexts'', JArr [JStr ''a'']),
                (''fileClaimCheck'', JStr ''f1.wav''), (''status'', JStr ''Processed''),
                (''timestamp'', JStr ''2025-01-01T00:00:00.000Z'')]) ''segments''
       = Undefined"
  by (simp add: request_fileClaimCheck_def processAndRespondToKafka_def process_try_block_def
        downloadFile_def externals_ok_def get_prop_def Let_def)

text \<open>
  C8. With the message handler as the spec describes it: for every message on the task
  queue whose parsed payload is \<^verbatim>\<open>null\<close> (also when it fails to parse), or whose
  \<^verbatim>\<open>correlationId\<close> is missing or empty, \<^verbatim>\<open>validateMessage\<close> returns false, and the handler
  drops the message without calling the processing step: the outside world is unchanged,
  the trace gains no download and no published message, and the outcome is the same for
  every processing step.
\<close>

theorem invalid_message_rejected_before_side_effects:
  assumes "requestData = (case JSON_parse X content of Inl error \<Rightarrow> Null | Inr v \<Rightarrow> v)"
    and "requestData = Null
           \<or> property_of requestData ''correlationId'' = Undefined
           \<or> property_of requestData ''correlationId'' = JStr ''''"
  shows "\<not> fst (validateMessage requestData tr)
         \<and> fst (rabbitMqMessageHandler X validateMessage process content (w, tr)) = w
         \<and> (\<exists>new. snd (rabbitMqMessageHandler X validateMessage process content (w, tr))
                     = tr @ new
                   \<and> \<not> list_ex is_download_or_send new)
         \<and> rabbitMqMessageHandler X validateMessage process content (w, tr)
             = rabbitMqMessageHandler X validateMessage process' content (w, tr)"
proof -
  have falsy: "\<not> truthy requestData \<or> \<not> truthy (property_of requestData ''correlationId'')"
    using assms(2) by auto
  obtain tr1 where v: "validateMessage requestData tr = (False, tr1)"
    using validateMessage_rejects(1) [OF falsy, of tr]
    by (cases "validateMessage requestData tr") simp
  obtain new where new: "tr1 = tr @ new" "\<not> list_ex is_download_or_send new"
    using validateMessage_rejects(2) [OF falsy, of tr] v
    by (elim exE conjE) (rule that, simp_all)
  have h: "rabbitMqMessageHandler X validateMessage p content (w, tr)
      = (w, tr1 @ [Console_warn ''Invalid message dropped'', Call_ack])" for p
    using v assms(1) by (simp add: rabbitMqMessageHandler_def Let_def)
  have "snd (rabbitMqMessageHandler X validateMessage process content (w, tr))
          = tr @ (new @ [Console_warn ''Invalid message dropped'', Call_ack])
        \<and> \<not> list_ex is_download_or_send (new @ [Console_warn ''Invalid message dropped'', Call_ack])"
    using new by (simp add: h)
  then have "\<exists>new. snd (rabbitMqMessageHandler X validateMessage process content (w, tr))
                     = tr @ new
                   \<and> \<not> list_ex is_download_or_send new" ..
  then show ?thesis using v by (simp add: h)
qed

theorem invalid_message_rejected_before_side_effects_witness:
  "(case JSON_parse externals_ok ''{'' of Inl error \<Rightarrow> Null | Inr v \<Rightarrow> v) = Null
   \<and> \<not> fst (validateMessage Null [])
   \<and> rabbitMqMessageHandler externals_ok validateMessage
         (processAndRespondToKafka externals_ok) ''{'' ((), [])
       = ((), [Console_warn ''Invalid message dropped'', Call_ack])"
proof -
  have p: "Null = (case JSON_parse externals_ok ''{'' of Inl error \<Rightarrow> Null | Inr v \<Rightarrow> v)"
    by (simp add: externals_ok_def)
  have "rabbitMqMessageHandler externals_ok validateMessage
         (processAndRespondToKafka externals_ok) ''{'' ((), [])
       = ((), [Console_warn ''Invalid message dropped'', Call_ack])"
    by (simp add: rabbitMqMessageHandler_def validateMessage_def externals_ok_def)
  then show ?thesis
    using invalid_message_rejected_before_side_effects
            [OF p, of "[]" "processAndRespondToKafka externals_ok" "()"
               "processAndRespondToKafka externals_ok"] p
    by simp
qed

section \<open>Download against the object store of the spec\<close>

lemma temporary_path_differs: "temporary_path localPath \<noteq> localPath"
  by (simp add: temporary_path_def)

text \<open>
  C9. With the object-store client as the spec describes it, \<^verbatim>\<open>downloadFile\<close> passes the
  client's failure on unchanged: when the named blob does not exist the download fails
  with \<^verbatim>\<open>NotFound\<close>, and on an I/O fault during the transfer it fails with
  \<^verbatim>\<open>TransferError\<close>. In every failure the file at the destination path is what it was
  before the call, so no partially-written file is there; after an I/O fault the
  temporary file is gone as well.
\<close>

theorem downloadFile_failure_leaves_no_partial_file:
  assumes "fGetObject X = spec_fGetObject fault"
  shows "(blobs s (bucketName X, name) = None \<longrightarrow>
            fst (downloadFile X name localPath (s, tr)) = Inl (Error_with_code ''NotFound''))
         \<and> (blobs s (bucketName X, name) \<noteq> None \<and> fault \<noteq> None \<longrightarrow>
              fst (downloadFile X name localPath (s, tr)) = Inl (Error_with_code ''TransferError'')
              \<and> files (fst (snd (downloadFile X name localPath (s, tr))))
                   (temporary_path localPath) = None)
         \<and> (\<forall>error. fst (downloadFile X name localPath (s, tr)) = Inl error \<longrightarrow>
               files (fst (snd (downloadFile X name localPath (s, tr)))) localPath
                 = files s localPath)"
  using temporary_path_differs [of localPath]
  by (auto simp: downloadFile_result assms spec_fGetObject_def split: option.splits)

theorem downloadFile_failure_leaves_no_partial_file_witness:
  "fGetObject (externals_store (Some 2)) = spec_fGetObject (Some 2)
   \<and> blobs store_f1 (bucketName (externals_store (Some 2)), ''missing.wav'') = None
   \<and> fst (downloadFile (externals_store (Some 2)) ''missing.wav'' ''/tmp/missing.wav''
            (store_f1, []))
       = Inl (Error_with_code ''NotFound'')
   \<and> blobs store_f1 (bucketName (externals_store (Some 2)), ''f1.wav'') = Some [1, 2, 3, 4]
   \<and> fst (downloadFile (externals_store (Some 2)) ''f1.wav'' ''/tmp/f1.wav'' (store_f1, []))
       = Inl (Error_with_code ''TransferError'')
   \<and> files (fst (snd (downloadFile (externals_store (Some 2)) ''f1.wav'' ''/tmp/f1.wav''
                        (store_f1, [])))) ''/tmp/f1.wav''
       = None"
proof -
  have x: "fGetObject (externals_store (Some 2)) = spec_fGetObject (Some 2)"
    by (simp add: externals_store_def)
  have b: "bucketName (externals_store (Some 2)) = ''audio''"
    by (simp add: externals_store_def)
  have m: "blobs store_f1 (''audio'', ''missing.wav'') = None"
    by (simp add: store_f1_def)
  have f: "blobs store_f1 (''audio'', ''f1.wav'') = Some [1, 2, 3, 4]"
    by (simp add: store_f1_def)
  have e: "files store_f1 ''/tmp/f1.wav'' = None"
    by (simp add: store_f1_def)
  show ?thesis
    using downloadFile_failure_leaves_no_partial_file
            [OF x, of store_f1 "''missing.wav''" "''/tmp/missing.wav''" "[]"]
          downloadFile_failure_leaves_no_partial_file
            [OF x, of store_f1 "''f1.wav''" "''/tmp/f1.wav''" "[]"]
    by (simp add: x b m f e)
qed

section \<open>Loading segments from a file\<close>

text \<open>
  C10. \<^verbatim>\<open>loadSegmentsFromFile\<close> never rejects: for every path it resolves to a value. When
  reading the file fails, or parsing its content as JSON fails, it logs the error (the
  last line of the trace) and resolves to the empty list; otherwise it resolves to the
  parsed value.
\<close>

theorem loadSegmentsFromFile_never_throws:
  "(\<exists>v. fst (loadSegmentsFromFile this X filePath (w, tr)) = Inr v)
   \<and> (\<forall>error w'. readFile X filePath w = (Inl error, w') \<longrightarrow>
         fst (loadSegmentsFromFile this X filePath (w, tr)) = Inr (JArr [])
         \<and> last (snd (snd (loadSegmentsFromFile this X filePath (w, tr))))
             = Console_error ''Error loading segments from file'' error)
   \<and> (\<forall>fileContent w' error.
         readFile X filePath w = (Inr fileContent, w') \<and> JSON_parse X fileContent = Inl error \<longrightarrow>
         fst (loadSegmentsFromFile this X filePath (w, tr)) = Inr (JArr [])
         \<and> last (snd (snd (loadSegmentsFromFile this X filePath (w, tr))))
             = Console_error ''Error loading segments from file'' error)
   \<and> (\<forall>fileContent w' v.
         readFile X filePath w = (Inr fileContent, w') \<and> JSON_parse X fileContent = Inr v \<longrightarrow>
         fst (loadSegmentsFromFile this X filePath (w, tr)) = Inr v)"
  by (cases "readFile X filePath w")
     (auto simp: loadSegmentsFromFile_def Let_def split: sum.splits)

theorem loadSegmentsFromFile_never_throws_witness:
  "readFile externals_ok ''segments.json'' () = (Inl (Error_with_code ''ENOENT''), ())
   \<and> fst (loadSegmentsFromFile (extractor_half False) externals_ok ''segments.json'' ((), []))
       = Inr (JArr [])
   \<and> last (snd (snd (loadSegmentsFromFile (extractor_half False) externals_ok
                        ''segments.json'' ((), []))))
       = Console_error ''Error loading segments from file'' (Error_with_code ''ENOENT'')"
proof -
  have r: "readFile externals_ok ''segments.json'' () = (Inl (Error_with_code ''ENOENT''), ())"
    by (simp add: externals_ok_def)
  show ?thesis
    using r loadSegmentsFromFile_never_throws
              [of "extractor_half False" externals_ok "''segments.json''" "()" "[]"]
    by blast
qed

end
